theory Spec2Isabelle
  imports Main
begin

section \<open>Data model of \<open>src/bib/bibManager.ts\<close>\<close>

text \<open>
  The resolution and caching engine of the reference list plugin, class \<open>BibManager\<close>.
  Asynchronous steps are modelled in the order in which a single caller awaits them; both
  \<open>initPromise\<close>s are taken as already resolved. A thrown JavaScript exception is the
  \<open>Inl\<close> branch of a sum; every function returns the manager state it leaves behind.
  \<open>dispatchResult\<close> hands a result to the views of the host application: here it is
  an event in the manager's trace.

  Names are those of the source. Where Isabelle has the name already, a field is prefixed:
  \<open>c_id\<close> is \<open>id\<close> of a citation, \<open>g_citations\<close> and \<open>rc_citations\<close> are
  \<open>citations\<close> of a group and of a rendered citation, \<open>note_html\<close> is \<open>note\<close>,
  \<open>so_id\<close> is \<open>id\<close> of a style object.
\<close>

datatype error = Error string | TypeError string

text \<open>A \<open>TFile\<close> is compared by object identity: the number is that identity.\<close>

datatype TFile = TFile nat

text \<open>
  \<open>Citation\<close> of the parser. This module reads only \<open>id\<close> (here \<open>c_id\<close>); the other
  attributes (prefix, suffix, locator, label, author suppression) are carried in
  \<open>c_rest\<close> so that deep equality still sees them. A falsy id (\<open>undefined\<close> or the empty
  string) is the empty string.
\<close>

record Citation =
  c_id :: string
  c_rest :: string

record Segment =
  seg_type :: string
  seg_val :: string
  seg_from :: nat
  seg_to :: nat

text \<open>What \<open>getCitations\<close> returns for one match: the group's citations and its segments.\<close>

record CitationGroup =
  g_citations :: "Citation list"
  g_data :: "Segment list"

record RenderedCitation =
  rc_citations :: "Citation list"
  rc_data :: "Segment list"
  val :: string
  rc_from :: nat
  rc_to :: nat
  note_html :: "string option"
  noteIndex :: "int option"

record PartialCSLEntry =
  entry_id :: string
  title :: "string option"

record ScopedSettings =
  style :: "string option"
  lang :: "string option"
  bibliography :: "string option"

text \<open>
  An \<open>HTMLElement\<close> made by \<open>DOMParser\<close>: the identity of the object and the node it holds.
\<close>

datatype HTMLElement = Element nat string

text \<open>
  \<open>FileCache.source\<close>. \<open>loadScopedEngine\<close> returns either the manager itself
  (\<open>return this\<close>), whose \<open>bibCache\<close>, \<open>fuse\<close> and \<open>engine\<close> fields are then read
  when they are used, or a fresh object \<open>{bibCache, fuse, engine}\<close>. An engine is a
  reference into the heap of engine objects, since \<open>cite\<close> works on the engine in place.
\<close>

datatype Source =
  This
  | Scoped "string \<rightharpoonup> PartialCSLEntry" "PartialCSLEntry list option" nat

record FileCache =
  keys :: "string set"
  resolvedKeys :: "string set"
  unresolvedKeys :: "string set"
  bib :: "HTMLElement option"
  citations :: "RenderedCitation list"
  citeBibMap :: "string \<rightharpoonup> string"
  settings :: "ScopedSettings option"
  source :: Source

text \<open>The fields of \<open>plugin.settings\<close> that \<open>loadScopedEngine\<close> reads.\<close>

record ReferenceListSettings =
  cslStyleURL :: "string option"
  cslLang :: "string option"
  pathToPandoc :: string

text \<open>
  \<open>makeBibliography\<close> of citeproc returns \<open>false\<close> when the style has no bibliography
  section and the pair \<open>[metadata, entries]\<close> otherwise. \<open>BibNone\<close> is an absent result
  (\<open>false\<close>, \<open>undefined\<close>), \<open>BibEmpty\<close> an array of length 0, both of which the test
  \<open>!bib?.length\<close> meets. \<open>entry_ids\<close> is a list of id lists.
\<close>

record BibMetadata =
  bibstart :: string
  bibend :: string
  entry_ids :: "string list list option"

datatype BibOutput = BibNone | BibEmpty | BibPair BibMetadata "string list"

text \<open>
  What the manager does to the outside, in order: console output, fetches of the helpers,
  engine constructions, the calls of \<open>cite\<close> and \<open>makeBibliography\<close> with what
  they gave back, and the results handed to \<open>dispatchResult\<close>.
\<close>

datatype event =
  ConsoleError error
  | FetchStyle "string option" "string option"
  | FetchLocale string
  | BibToCSL string string
  | BuildEngine nat
  | Cite nat "CitationGroup list" "error + RenderedCitation list"
  | MakeBibliography nat "error + BibOutput"
  | Dispatch TFile FileCache

text \<open>
  The manager. \<open>fileCache\<close> is the \<open>LRUCache\<close>, most recently used entry first.
  \<open>heap\<close> holds the state of every \<open>CSL.Engine\<close> object and \<open>next_obj\<close> is the next
  unused object identity; \<open>pluginSettings\<close> and \<open>cacheDir\<close> are the fields of
  \<open>this.plugin\<close>.
\<close>

record 'e BibManager =
  fileCache :: "(TFile \<times> FileCache) list"
  langCache :: "string \<rightharpoonup> string"
  styleCache :: "string \<rightharpoonup> string"
  bibCache :: "string \<rightharpoonup> PartialCSLEntry"
  fuse :: "PartialCSLEntry list option"
  engine :: "nat option"
  heap :: "nat \<Rightarrow> 'e"
  next_obj :: nat
  pluginSettings :: ReferenceListSettings
  cacheDir :: string
  trace :: "event list"

text \<open>
  The frontmatter keys of a document that \<open>getScopedSettings\<close> reads; a key that is not
  there is \<open>None\<close>. Values are strings: on a value of another type (a list, a number)
  \<open>trim\<close> is not a function and the source throws before it chooses a scope, which the
  model leaves out.
\<close>

record Frontmatter =
  fm_bibliography :: "string option"
  fm_csl :: "string option"
  fm_citation_style :: "string option"
  fm_lang :: "string option"
  fm_citation_language :: "string option"

record Section =
  start_line :: nat
  end_line :: nat
  start_offset :: nat
  end_offset :: nat

text \<open>
  The collaborators that are not part of this module, as parameters: the host application
  (\<open>metadataCache\<close>: the frontmatter of a file, \<open>None\<close> when it has none;
  \<open>getAbstractFileByPath\<close>: the \<open>TFile\<close> at a path, if the path is a file;
  \<open>getCache\<close>: the metadata of a path, \<open>None\<close> when there is none, holding the
  sections of the document if it has any), \<open>parseInt\<close> of JavaScript (\<open>None\<close> is
  \<open>NaN\<close>), the parser (\<open>getCitationSegments\<close>, \<open>getCitations\<close>), the transport
  under \<open>getCSLStyle\<close> and
  \<open>getCSLLocale\<close>, \<open>bibToCSL\<close>, the citeproc engine (its constructor, \<open>cite\<close> of
  \<open>src/parser/citeproc\<close> and \<open>makeBibliography\<close>, each returning the engine's next
  state) and \<open>DOMParser\<close> (\<open>firstChild\<close>: the first child of the parsed body, if any;
  \<open>childNodes\<close>: all its children).
  \<open>extractRawLocales\<close> only decides which locale ids are fetched; its regular expression
  and citeproc's language tables are not modelled, it is a parameter as well.
\<close>

record 'e Env =
  metadataCache :: "TFile \<Rightarrow> Frontmatter option"
  getAbstractFileByPath :: "string \<Rightarrow> TFile option"
  getCache :: "string \<Rightarrow> Section list option option"
  parseInt :: "string \<Rightarrow> int option"
  getCitationSegments :: "string \<Rightarrow> Segment list list"
  getCitations :: "Segment list \<Rightarrow> CitationGroup"
  fetchStyle :: "string option \<Rightarrow> string option \<Rightarrow> error + string"
  fetchLocale :: "string \<Rightarrow> error + string"
  bibToCSL :: "string \<Rightarrow> string \<Rightarrow> error + PartialCSLEntry list"
  extractRawLocales :: "string \<Rightarrow> string option \<Rightarrow> string list"
  newEngine :: "string \<Rightarrow> (string \<rightharpoonup> string) \<Rightarrow> string option
                  \<Rightarrow> (string \<rightharpoonup> PartialCSLEntry) \<Rightarrow> error + 'e"
  cite :: "'e \<Rightarrow> CitationGroup list \<Rightarrow> (error + RenderedCitation list) \<times> 'e"
  makeBibliography :: "'e \<Rightarrow> (error + BibOutput) \<times> 'e"
  firstChild :: "string \<Rightarrow> string option"
  childNodes :: "string \<Rightarrow> string list"

definition record_event :: "event \<Rightarrow> 'e BibManager \<Rightarrow> 'e BibManager" where
  "record_event ev st = st\<lparr>trace := trace st @ [ev]\<rparr>"

text \<open>JavaScript truthiness of a \<open>string | undefined\<close>.\<close>

definition truthy :: "string option \<Rightarrow> bool" where
  "truthy s = (case s of None \<Rightarrow> False | Some v \<Rightarrow> v \<noteq> [])"

section \<open>The resolution cache\<close>

text \<open>
  \<open>fileCache\<close> is an \<open>LRUCache\<close> of the \<open>lru-cache\<close> package, which is not part of the
  sources, made with \<open>max: 10\<close>. The spec has a capacity-bounded map with access-order
  tracking (move to front), from which the least recently used entry is evicted once the
  number of cached documents exceeds the capacity. A cache is the list of its entries, the
  most recently used first.
\<close>

definition max_files :: nat where
  "max_files = 10"

text \<open>Modelled from the spec: \<open>has\<close> of the LRU cache; it leaves the order alone.\<close>

definition lru_has :: "('k \<times> 'v) list \<Rightarrow> 'k \<Rightarrow> bool" where
  "lru_has c k = (map_of c k \<noteq> None)"

text \<open>Modelled from the spec: \<open>get\<close> of the LRU cache; a hit moves the entry to the front.\<close>

definition lru_get :: "('k \<times> 'v) list \<Rightarrow> 'k \<Rightarrow> 'v option \<times> ('k \<times> 'v) list" where
  "lru_get c k =
     (case map_of c k of
        None \<Rightarrow> (None, c)
      | Some v \<Rightarrow> (Some v, (k, v) # filter (\<lambda>p. fst p \<noteq> k) c))"

text \<open>
  Modelled from the spec: \<open>set\<close> of the LRU cache; the entry goes to the front, replacing
  an older entry of the same key, and the least recently used entries beyond the capacity
  are evicted.
\<close>

definition lru_set :: "('k \<times> 'v) list \<Rightarrow> 'k \<Rightarrow> 'v \<Rightarrow> ('k \<times> 'v) list" where
  "lru_set c k v = take max_files ((k, v) # filter (\<lambda>p. fst p \<noteq> k) c)"

text \<open>Modelled from the spec: \<open>clear\<close> of the LRU cache.\<close>

definition lru_clear :: "('k \<times> 'v) list \<Rightarrow> ('k \<times> 'v) list" where
  "lru_clear c = []"

section \<open>Style and locale loading\<close>

record StyleObj =
  so_id :: "string option"
  explicitPath :: "string option"

text \<open>
  Modelled from the spec: \<open>getCSLStyle\<close> of \<open>src/bib/helpers\<close> is not part of the
  sources. The spec has \<open>load(id, explicitPath?) -> document\<close>, fetch-or-read once,
  memoize under \<open>id\<close> (or \<open>explicitPath\<close> when provided); a failure is not cached.
  \<open>loadStyles\<close> skips a style that has neither, so the first case does not arise there.
\<close>

definition getCSLStyle ::
  "'e Env \<Rightarrow> 'e BibManager \<Rightarrow> string option \<Rightarrow> string option
     \<Rightarrow> (error + string) \<times> 'e BibManager" where
  "getCSLStyle env st sid path =
     (case (case path of Some p \<Rightarrow> Some p | None \<Rightarrow> sid) of
        None \<Rightarrow> (Inl (Error ''no style''), st)
      | Some k \<Rightarrow>
          (case styleCache st k of
             Some doc \<Rightarrow> (Inr doc, st)
           | None \<Rightarrow>
               (case fetchStyle env sid path of
                  Inl e \<Rightarrow> (Inl e, record_event (FetchStyle sid path) st)
                | Inr doc \<Rightarrow>
                    (Inr doc,
                     (record_event (FetchStyle sid path) st)
                       \<lparr>styleCache := (styleCache st)(k \<mapsto> doc)\<rparr>))))"

text \<open>
  Modelled from the spec: \<open>getCSLLocale\<close> of \<open>src/bib/helpers\<close> is not part of the
  sources. The spec has a locale document loaded once and memoized under its id.
\<close>

definition getCSLLocale ::
  "'e Env \<Rightarrow> 'e BibManager \<Rightarrow> string \<Rightarrow> (error + string) \<times> 'e BibManager" where
  "getCSLLocale env st l =
     (case langCache st l of
        Some doc \<Rightarrow> (Inr doc, st)
      | None \<Rightarrow>
          (case fetchLocale env l of
             Inl e \<Rightarrow> (Inl e, record_event (FetchLocale l) st)
           | Inr doc \<Rightarrow>
               (Inr doc,
                (record_event (FetchLocale l) st)\<lparr>langCache := (langCache st)(l \<mapsto> doc)\<rparr>)))"

text \<open>\<open>style.explicitPath ?? style.id\<close>, the key \<open>loadStyles\<close> looks up.\<close>

definition style_key :: "StyleObj \<Rightarrow> string option" where
  "style_key s = (case explicitPath s of Some p \<Rightarrow> Some p | None \<Rightarrow> so_id s)"

definition cache_has :: "(string \<rightharpoonup> 'v) \<Rightarrow> string option \<Rightarrow> bool" where
  "cache_has m k = (case k of None \<Rightarrow> False | Some s \<Rightarrow> m s \<noteq> None)"

fun loadStyles ::
  "'e Env \<Rightarrow> StyleObj list \<Rightarrow> 'e BibManager \<Rightarrow> (error + string list) \<times> 'e BibManager" where
  "loadStyles env [] st = (Inr [], st)"
| "loadStyles env (s # ss) st =
     (if \<not> truthy (so_id s) \<and> \<not> truthy (explicitPath s) then loadStyles env ss st
      else if \<not> cache_has (styleCache st) (style_key s) then
        (case getCSLStyle env st (so_id s) (explicitPath s) of
           (Inl e, st1) \<Rightarrow> (Inl e, st1)
         | (Inr doc, st1) \<Rightarrow>
             (case loadStyles env ss st1 of
                (Inl e, st2) \<Rightarrow> (Inl e, st2)
              | (Inr res, st2) \<Rightarrow> (Inr (doc # res), st2)))
      else loadStyles env ss st)"

fun loadLangs ::
  "'e Env \<Rightarrow> string option list \<Rightarrow> 'e BibManager \<Rightarrow> (error + unit) \<times> 'e BibManager" where
  "loadLangs env [] st = (Inr (), st)"
| "loadLangs env (l # ls) st =
     (case l of
        None \<Rightarrow> loadLangs env ls st
      | Some v \<Rightarrow>
          if v = [] then loadLangs env ls st
          else if langCache st v = None then
            (case getCSLLocale env st v of
               (Inl e, st1) \<Rightarrow> (Inl e, st1)
             | (Inr doc, st1) \<Rightarrow> loadLangs env ls st1)
          else loadLangs env ls st)"

section \<open>Scoped settings\<close>

text \<open>
  \<open>String.prototype.trim\<close> on the white space characters of ASCII (a \<open>char\<close> is a byte;
  the white space of Unicode beyond ASCII is not modelled).
\<close>

definition is_space :: "char \<Rightarrow> bool" where
  "is_space c = (c \<in> set [CHR '' '', CHR 0x09, CHR 0x0A, CHR 0x0B, CHR 0x0C, CHR 0x0D])"

definition trim :: "string \<Rightarrow> string" where
  "trim s = rev (dropWhile is_space (rev (dropWhile is_space s)))"

text \<open>\<open>v?.trim() || undefined\<close>: an empty result is falsy and gives way.\<close>

definition trimmed :: "string option \<Rightarrow> string option" where
  "trimmed v = (case v of None \<Rightarrow> None | Some s \<Rightarrow> if trim s = [] then None else Some (trim s))"

definition or_else :: "string option \<Rightarrow> string option \<Rightarrow> string option" where
  "or_else a b = (case a of None \<Rightarrow> b | Some v \<Rightarrow> Some v)"

definition getScopedSettings :: "Frontmatter option \<Rightarrow> ScopedSettings option" where
  "getScopedSettings metadata =
     (case metadata of
        None \<Rightarrow> None
      | Some frontmatter \<Rightarrow>
          (let output = \<lparr>style = or_else (trimmed (fm_csl frontmatter))
                                   (trimmed (fm_citation_style frontmatter)),
                         lang = or_else (trimmed (fm_lang frontmatter))
                                  (trimmed (fm_citation_language frontmatter)),
                         bibliography = trimmed (fm_bibliography frontmatter)\<rparr>
           in if \<not> truthy (bibliography output) \<and> \<not> truthy (style output)
                   \<and> \<not> truthy (lang output)
              then None else Some output))"

section \<open>Building a scope\<close>

definition default_style :: string where
  "default_style =
     ''https://raw.githubusercontent.com/citation-style-language/styles/master/apa.csl''"

text \<open>
  \<open>buildEngine\<close>: the constructor of \<open>CSL.Engine\<close> gets the locale and item lookups, the
  style document \<open>styleCache.get(style)\<close> and the language; the new object is put on the
  heap. The constructor may throw, and nothing in \<open>buildEngine\<close> catches that.
\<close>

definition buildEngine ::
  "'e Env \<Rightarrow> string \<Rightarrow> string \<Rightarrow> (string \<rightharpoonup> PartialCSLEntry) \<Rightarrow> 'e BibManager
     \<Rightarrow> (error + nat) \<times> 'e BibManager" where
  "buildEngine env lng sty bc st =
     (case newEngine env lng (langCache st) (styleCache st sty) bc of
        Inl e \<Rightarrow> (Inl e, st)
      | Inr eng \<Rightarrow>
          (Inr (next_obj st),
           record_event (BuildEngine (next_obj st))
             (st\<lparr>heap := (heap st)(next_obj st := eng), next_obj := Suc (next_obj st)\<rparr>)))"

text \<open>The body of the first \<open>try\<close> of \<open>loadScopedEngine\<close>: the locale ids and the style.\<close>

definition tryStyle ::
  "'e Env \<Rightarrow> ScopedSettings \<Rightarrow> string \<Rightarrow> 'e BibManager
     \<Rightarrow> (error + string option list \<times> string) \<times> 'e BibManager" where
  "tryStyle env s style0 st =
     (case style s of
        None \<Rightarrow> (Inr ([lang s], style0), st)
      | Some v \<Rightarrow>
          if v = [] then (Inr ([lang s], style0), st)
          else
            (let isURL = (take 4 v = ''http'');
                 styleObj = (if isURL then \<lparr>so_id = Some v, explicitPath = None\<rparr>
                             else \<lparr>so_id = Some v, explicitPath = Some v\<rparr>)
             in case loadStyles env [styleObj] st of
                  (Inl e, st1) \<Rightarrow> (Inl e, st1)
                | (Inr styles, st1) \<Rightarrow>
                    (Inr (foldl (\<lambda>langs styleStr.
                                   map Some (extractRawLocales env styleStr (lang s)))
                            [lang s] styles, v), st1)))"

text \<open>The body of the second \<open>try\<close>: the locales are loaded, the language is set.\<close>

definition tryLang ::
  "'e Env \<Rightarrow> ScopedSettings \<Rightarrow> string option list \<Rightarrow> string \<Rightarrow> 'e BibManager
     \<Rightarrow> (error + string) \<times> 'e BibManager" where
  "tryLang env s langs lang0 st =
     (case lang s of
        None \<Rightarrow> (Inr lang0, st)
      | Some v \<Rightarrow>
          if v = [] then (Inr lang0, st)
          else (case loadLangs env langs st of
                  (Inl e, st1) \<Rightarrow> (Inl e, st1)
                | (Inr u, st1) \<Rightarrow> (Inr v, st1)))"

text \<open>The body of the third \<open>try\<close>: the bibliography lookup and the search index.\<close>

definition tryBibliography ::
  "'e Env \<Rightarrow> ScopedSettings \<Rightarrow> 'e BibManager
     \<Rightarrow> (error + (string \<rightharpoonup> PartialCSLEntry) \<times> PartialCSLEntry list option) \<times> 'e BibManager" where
  "tryBibliography env s st =
     (case bibliography s of
        None \<Rightarrow> (Inr (bibCache st, fuse st), st)
      | Some v \<Rightarrow>
          if v = [] then (Inr (bibCache st, fuse st), st)
          else
            (let st1 = record_event (BibToCSL v (pathToPandoc (pluginSettings st))) st
             in case bibToCSL env v (pathToPandoc (pluginSettings st)) of
                  Inl e \<Rightarrow> (Inl e, st1)
                | Inr entries \<Rightarrow>
                    (Inr (foldl (\<lambda>m entry. m(entry_id entry \<mapsto> entry)) Map.empty entries,
                          Some entries), st1)))"

text \<open>
  \<open>pluginSettings.cslStyleURL ?? '...apa.csl'\<close> and \<open>pluginSettings.cslLang ?? 'en-US'\<close>,
  the style and the language that a scope starts from.
\<close>

definition globalStyle :: "'e BibManager \<Rightarrow> string" where
  "globalStyle st =
     (case cslStyleURL (pluginSettings st) of Some u \<Rightarrow> u | None \<Rightarrow> default_style)"

definition globalLang :: "'e BibManager \<Rightarrow> string" where
  "globalLang st = (case cslLang (pluginSettings st) of Some l \<Rightarrow> l | None \<Rightarrow> ''en-US'')"

text \<open>
  \<open>loadScopedEngine\<close>. Each \<open>catch\<close> writes the error to the console and returns
  \<open>this\<close>; \<open>buildEngine\<close> is outside the \<open>try\<close> blocks.
\<close>

definition loadScopedEngine ::
  "'e Env \<Rightarrow> ScopedSettings option \<Rightarrow> 'e BibManager \<Rightarrow> (error + Source) \<times> 'e BibManager" where
  "loadScopedEngine env scoped st =
     (case scoped of
        None \<Rightarrow> (Inr This, st)
      | Some s \<Rightarrow>
          (let style0 = globalStyle st;
               lang0 = globalLang st
           in case tryStyle env s style0 st of
                (Inl e, st1) \<Rightarrow> (Inr This, record_event (ConsoleError e) st1)
              | (Inr (langs, sty), st1) \<Rightarrow>
                  (case tryLang env s langs lang0 st1 of
                     (Inl e, st2) \<Rightarrow> (Inr This, record_event (ConsoleError e) st2)
                   | (Inr lng, st2) \<Rightarrow>
                       (case tryBibliography env s st2 of
                          (Inl e, st3) \<Rightarrow> (Inr This, record_event (ConsoleError e) st3)
                        | (Inr (bc, fz), st3) \<Rightarrow>
                            (case buildEngine env lng sty bc st3 of
                               (Inl e, st4) \<Rightarrow> (Inl e, st4)
                             | (Inr r, st4) \<Rightarrow> (Inr (Scoped bc fz r), st4))))))"

section \<open>Resolving a document\<close>

text \<open>The ids of all citations of all groups, the falsy ones left out (\<open>citeKeys\<close>).\<close>

definition collectKeys :: "CitationGroup list \<Rightarrow> string set" where
  "collectKeys processed =
     set (filter (\<lambda>k. k \<noteq> []) (concat (map (\<lambda>p. map c_id (g_citations p)) processed)))"

text \<open>\<open>s?.f\<close> for a field \<open>f\<close> of the settings.\<close>

definition opt_field ::
  "(ScopedSettings \<Rightarrow> string option) \<Rightarrow> ScopedSettings option \<Rightarrow> string option" where
  "opt_field f s = (case s of None \<Rightarrow> None | Some x \<Rightarrow> f x)"

definition areSettingsEqual :: "ScopedSettings option \<Rightarrow> FileCache option \<Rightarrow> bool" where
  "areSettingsEqual scoped cachedDoc =
     (let cached = (case cachedDoc of None \<Rightarrow> None | Some d \<Rightarrow> settings d)
      in opt_field bibliography scoped = opt_field bibliography cached
         \<and> opt_field style scoped = opt_field style cached
         \<and> opt_field lang scoped = opt_field lang cached)"

text \<open>\<open>source.bibCache\<close> and \<open>source.engine\<close>, read through \<open>this\<close> where the source is it.\<close>

definition source_bibCache :: "'e BibManager \<Rightarrow> Source \<Rightarrow> (string \<rightharpoonup> PartialCSLEntry)" where
  "source_bibCache st src = (case src of This \<Rightarrow> bibCache st | Scoped bc fz r \<Rightarrow> bc)"

definition source_engine :: "'e BibManager \<Rightarrow> Source \<Rightarrow> nat option" where
  "source_engine st src = (case src of This \<Rightarrow> engine st | Scoped bc fz r \<Rightarrow> Some r)"

text \<open>
  The callback of \<open>s.citations.every\<close>: it adds each id it sees to one of the two sets
  and \<open>every\<close> stops at the first citation that does not resolve.
\<close>

fun everyResolved ::
  "(string \<rightharpoonup> PartialCSLEntry) \<Rightarrow> Citation list \<Rightarrow> string set \<times> string set
     \<Rightarrow> bool \<times> string set \<times> string set" where
  "everyResolved bc [] (resolved, unresolved) = (True, resolved, unresolved)"
| "everyResolved bc (c # cs) (resolved, unresolved) =
     (if bc (c_id c) \<noteq> None then everyResolved bc cs (insert (c_id c) resolved, unresolved)
      else (False, resolved, insert (c_id c) unresolved))"

text \<open>\<open>processed.filter\<close> with that callback.\<close>

fun filterResolved ::
  "(string \<rightharpoonup> PartialCSLEntry) \<Rightarrow> CitationGroup list \<Rightarrow> string set \<times> string set
     \<Rightarrow> CitationGroup list \<times> string set \<times> string set" where
  "filterResolved bc [] (resolved, unresolved) = ([], resolved, unresolved)"
| "filterResolved bc (g # gs) (resolved, unresolved) =
     (case everyResolved bc (g_citations g) (resolved, unresolved) of
        (ok, resolved1, unresolved1) \<Rightarrow>
          (case filterResolved bc gs (resolved1, unresolved1) of
             (rest, resolved2, unresolved2) \<Rightarrow>
               (if ok then g # rest else rest, resolved2, unresolved2)))"

text \<open>
  \<open>metadata.entry_ids?.forEach((e, i) => citeBibMap.set(e[0], entries[i]))\<close>. A value
  \<open>undefined\<close> reads like a missing key; a key \<open>undefined\<close> is never read.
\<close>

fun setCiteBibMap ::
  "string list list \<Rightarrow> nat \<Rightarrow> string list \<Rightarrow> (string \<rightharpoonup> string) \<Rightarrow> (string \<rightharpoonup> string)" where
  "setCiteBibMap [] i entries m = m"
| "setCiteBibMap (e # es) i entries m =
     setCiteBibMap es (Suc i) entries
       (case e of
          [] \<Rightarrow> m
        | k # ks \<Rightarrow> m(k := (if i < length entries then Some (entries ! i) else None)))"

text \<open>
  Lines 499 to 517 of \<open>getReferenceList\<close>: \<open>citeKeys.forEach\<close> puts every key into
  \<open>resolvedKeys\<close> or \<open>unresolvedKeys\<close>, then \<open>processed.filter\<close> keeps the groups
  all of whose citations resolve.
\<close>

definition partitionKeys ::
  "(string \<rightharpoonup> PartialCSLEntry) \<Rightarrow> CitationGroup list \<Rightarrow> string set
     \<Rightarrow> CitationGroup list \<times> string set \<times> string set" where
  "partitionKeys bc processed citeKeys =
     filterResolved bc processed
       (Set.filter (\<lambda>k. bc k \<noteq> None) citeKeys, Set.filter (\<lambda>k. bc k = None) citeKeys)"

text \<open>\<open>this.fileCache.set(file, result); this.dispatchResult(file, result)\<close>.\<close>

definition storeResult :: "TFile \<Rightarrow> FileCache \<Rightarrow> 'e BibManager \<Rightarrow> 'e BibManager" where
  "storeResult file result st =
     record_event (Dispatch file result)
       (st\<lparr>fileCache := lru_set (fileCache st) file result\<rparr>)"

text \<open>\<open>setNull\<close>, the closure inside \<open>getReferenceList\<close>, with what it closes over.\<close>

definition setNull ::
  "TFile \<Rightarrow> string set \<Rightarrow> string set \<Rightarrow> string set \<Rightarrow> Source \<Rightarrow> 'e BibManager
     \<Rightarrow> (error + HTMLElement option) \<times> 'e BibManager" where
  "setNull file citeKeys resolved unresolved src st =
     (let result = \<lparr>keys = citeKeys, resolvedKeys = resolved, unresolvedKeys = unresolved,
                     bib = None, citations = [], citeBibMap = Map.empty, settings = None,
                     source = src\<rparr>
      in (Inr None, storeResult file result st))"

text \<open>
  \<open>cite(source.engine, filtered)\<close> and \<open>source.engine.makeBibliography()\<close>: the call
  works on the engine object \<open>r\<close> in place.
\<close>

definition callCite ::
  "'e Env \<Rightarrow> nat \<Rightarrow> CitationGroup list \<Rightarrow> 'e BibManager
     \<Rightarrow> (error + RenderedCitation list) \<times> 'e BibManager" where
  "callCite env r groups st =
     (case cite env (heap st r) groups of
        (rendered, eng) \<Rightarrow>
          (rendered, record_event (Cite r groups rendered) (st\<lparr>heap := (heap st)(r := eng)\<rparr>)))"

definition callMakeBibliography ::
  "'e Env \<Rightarrow> nat \<Rightarrow> 'e BibManager \<Rightarrow> (error + BibOutput) \<times> 'e BibManager" where
  "callMakeBibliography env r st =
     (case makeBibliography env (heap st r) of
        (made, eng) \<Rightarrow>
          (made, record_event (MakeBibliography r made) (st\<lparr>heap := (heap st)(r := eng)\<rparr>)))"

text \<open>
  The test of lines 524 to 528: the cached entry, if the bibliography it holds is to be
  returned as it is.
\<close>

definition unchanged ::
  "FileCache option \<Rightarrow> RenderedCitation list \<Rightarrow> bool \<Rightarrow> FileCache option" where
  "unchanged cachedDoc cits eq =
     (case cachedDoc of
        None \<Rightarrow> None
      | Some d \<Rightarrow> if citations d = cits \<and> eq then Some d else None)"

text \<open>
  Lines 538 to 568: the bibliography is put together and parsed, the result is stored and
  dispatched.
\<close>

definition storeBibliography ::
  "'e Env \<Rightarrow> TFile \<Rightarrow> string set \<Rightarrow> string set \<Rightarrow> string set \<Rightarrow> ScopedSettings option
     \<Rightarrow> Source \<Rightarrow> RenderedCitation list \<Rightarrow> BibMetadata \<Rightarrow> string list \<Rightarrow> 'e BibManager
     \<Rightarrow> (error + HTMLElement option) \<times> 'e BibManager" where
  "storeBibliography env file citeKeys resolved unresolved scoped src cits metadata entries st =
     (let cbm = (case entry_ids metadata of
                   None \<Rightarrow> Map.empty
                 | Some ids \<Rightarrow> setCiteBibMap ids 0 entries Map.empty);
          htmlStr = concat (bibstart metadata # entries @ [bibend metadata]);
          parsed = (if entries \<noteq> []
                    then map_option (Element (next_obj st)) (firstChild env htmlStr)
                    else None);
          st1 = (if entries \<noteq> [] then st\<lparr>next_obj := Suc (next_obj st)\<rparr> else st);
          result = \<lparr>keys = citeKeys, resolvedKeys = resolved, unresolvedKeys = unresolved,
                    bib = parsed, citations = cits, citeBibMap = cbm, settings = scoped,
                    source = src\<rparr>
      in (Inr (bib result), storeResult file result st1))"

text \<open>
  \<open>getReferenceList\<close> from the definition of \<open>setNull\<close> to its end, that is from the
  point where \<open>source\<close> is known. \<open>eq\<close> is \<open>areSettingsEqual\<close>.
\<close>

definition renderWithSource ::
  "'e Env \<Rightarrow> TFile \<Rightarrow> CitationGroup list \<Rightarrow> string set \<Rightarrow> ScopedSettings option
     \<Rightarrow> FileCache option \<Rightarrow> bool \<Rightarrow> Source \<Rightarrow> 'e BibManager
     \<Rightarrow> (error + HTMLElement option) \<times> 'e BibManager" where
  "renderWithSource env file processed citeKeys scoped cachedDoc eq src st =
     (case source_engine st src of
        None \<Rightarrow> setNull file citeKeys {} {} src st
      | Some r \<Rightarrow>
          (case partitionKeys (source_bibCache st src) processed citeKeys of
             (filtered, resolved, unresolved) \<Rightarrow>
               (case callCite env r filtered st of
                  (Inl e, st1) \<Rightarrow> (Inl e, st1)
                | (Inr cits, st1) \<Rightarrow>
                    (case unchanged cachedDoc cits eq of
                       Some d \<Rightarrow> (Inr (bib d), st1)
                     | None \<Rightarrow>
                         (case callMakeBibliography env r st1 of
                            (Inl e, st2) \<Rightarrow> (Inl e, st2)
                          | (Inr BibNone, st2) \<Rightarrow>
                              setNull file citeKeys resolved unresolved src st2
                          | (Inr BibEmpty, st2) \<Rightarrow>
                              setNull file citeKeys resolved unresolved src st2
                          | (Inr (BibPair metadata entries), st2) \<Rightarrow>
                              storeBibliography env file citeKeys resolved unresolved scoped
                                src cits metadata entries st2)))))"

text \<open>
  \<open>this.fileCache.has(file) ? this.fileCache.get(file) : null\<close>, with the manager after
  the read.
\<close>

definition readCached :: "TFile \<Rightarrow> 'e BibManager \<Rightarrow> FileCache option \<times> 'e BibManager" where
  "readCached file st =
     (if lru_has (fileCache st) file
      then (case lru_get (fileCache st) file of
              (cachedDoc, fc1) \<Rightarrow> (cachedDoc, st\<lparr>fileCache := fc1\<rparr>))
      else (None, st))"

text \<open>
  \<open>cachedDoc?.source && areSettingsEqual ? cachedDoc.source : await
  this.loadScopedEngine(settings)\<close>. \<open>cachedDoc?.source\<close> is truthy exactly when there is
  a cached entry, every entry holding a source object.
\<close>

definition selectSource ::
  "'e Env \<Rightarrow> ScopedSettings option \<Rightarrow> FileCache option \<Rightarrow> 'e BibManager
     \<Rightarrow> (error + Source) \<times> 'e BibManager" where
  "selectSource env scoped cachedDoc st =
     (case cachedDoc of
        None \<Rightarrow> loadScopedEngine env scoped st
      | Some d \<Rightarrow>
          if areSettingsEqual scoped cachedDoc then (Inr (source d), st)
          else loadScopedEngine env scoped st)"

text \<open>\<open>getReferenceList\<close>.\<close>

definition getReferenceList ::
  "'e Env \<Rightarrow> TFile \<Rightarrow> string \<Rightarrow> 'e BibManager
     \<Rightarrow> (error + HTMLElement option) \<times> 'e BibManager" where
  "getReferenceList env file content st =
     (let segs = getCitationSegments env content;
          processed = map (getCitations env) segs
      in if processed = [] then (Inr None, st)
         else
           (case readCached file st of
              (cachedDoc, st1) \<Rightarrow>
                (let scoped = getScopedSettings (metadataCache env file);
                     citeKeys = collectKeys processed;
                     eq = areSettingsEqual scoped cachedDoc
                 in case selectSource env scoped cachedDoc st1 of
                      (Inl e, st2) \<Rightarrow> (Inl e, st2)
                    | (Inr src, st2) \<Rightarrow>
                        renderWithSource env file processed citeKeys scoped cachedDoc eq
                          src st2)))"

text \<open>The events of a call that took the manager from \<open>st\<close> to \<open>st'\<close>.\<close>

definition pass_events :: "'e BibManager \<Rightarrow> 'e BibManager \<Rightarrow> event list" where
  "pass_events st st' = drop (length (trace st)) (trace st')"

section \<open>Queries\<close>

text \<open>
  \<open>c.noteIndex === noteIndex\<close>: a \<open>noteIndex\<close> that is \<open>undefined\<close> equals no number,
  and \<open>NaN\<close> equals nothing.
\<close>

definition noteIndex_is :: "int option \<Rightarrow> RenderedCitation \<Rightarrow> bool" where
  "noteIndex_is n c = (case n of None \<Rightarrow> False | Some i \<Rightarrow> noteIndex c = Some i)"

text \<open>Fresh elements for the nodes a \<open>DOMParser\<close> call made.\<close>

definition elements :: "nat \<Rightarrow> string list \<Rightarrow> HTMLElement list" where
  "elements n nodes = map (\<lambda>(i, node). Element (n + i) node) (enumerate 0 nodes)"

text \<open>
  \<open>getNoteForNoteIndex\<close>. \<open>find\<close> gives \<open>undefined\<close> when no citation matches, and
  reading \<open>cite.note\<close> of that throws a \<open>TypeError\<close>.
\<close>

definition getNoteForNoteIndex ::
  "'e Env \<Rightarrow> TFile \<Rightarrow> string \<Rightarrow> 'e BibManager
     \<Rightarrow> (error + HTMLElement list option) \<times> 'e BibManager" where
  "getNoteForNoteIndex env file index st =
     (if \<not> lru_has (fileCache st) file then (Inr None, st)
      else
        (case lru_get (fileCache st) file of
           (None, fc1) \<Rightarrow> (Inl (TypeError ''cache is undefined''), st\<lparr>fileCache := fc1\<rparr>)
         | (Some cache, fc1) \<Rightarrow>
             (let st1 = st\<lparr>fileCache := fc1\<rparr>;
                  n = parseInt env index
              in case find (noteIndex_is n) (citations cache) of
                   None \<Rightarrow> (Inl (TypeError ''cite is undefined''), st1)
                 | Some c \<Rightarrow>
                     (case note_html c of
                        None \<Rightarrow> (Inr None, st1)
                      | Some html \<Rightarrow>
                          if html = [] then (Inr None, st1)
                          else (Inr (Some (elements (next_obj st1) (childNodes env html))),
                                st1\<lparr>next_obj :=
                                      next_obj st1 + length (childNodes env html)\<rparr>)))))"

definition getBibForCiteKey ::
  "'e Env \<Rightarrow> TFile \<Rightarrow> string \<Rightarrow> 'e BibManager
     \<Rightarrow> (error + HTMLElement option) \<times> 'e BibManager" where
  "getBibForCiteKey env file key st =
     (if \<not> lru_has (fileCache st) file then (Inr None, st)
      else
        (case lru_get (fileCache st) file of
           (None, fc1) \<Rightarrow> (Inl (TypeError ''cache is undefined''), st\<lparr>fileCache := fc1\<rparr>)
         | (Some cache, fc1) \<Rightarrow>
             (let st1 = st\<lparr>fileCache := fc1\<rparr>
              in if key \<notin> keys cache then (Inr None, st1)
                 else
                   (case citeBibMap cache key of
                      None \<Rightarrow> (Inr None, st1)
                    | Some html \<Rightarrow>
                        if html = [] then (Inr None, st1)
                        else (Inr (map_option (Element (next_obj st1)) (firstChild env html)),
                              st1\<lparr>next_obj := Suc (next_obj st1)\<rparr>)))))"

text \<open>
  The three path queries start alike: the path names a \<open>TFile\<close> that is in the cache, and
  the entry is read with \<open>get\<close>.
\<close>

definition cachedForPath ::
  "'e Env \<Rightarrow> string \<Rightarrow> 'e BibManager \<Rightarrow> FileCache option \<times> 'e BibManager" where
  "cachedForPath env filePath st =
     (case getAbstractFileByPath env filePath of
        None \<Rightarrow> (None, st)
      | Some file \<Rightarrow>
          if lru_has (fileCache st) file
          then (case lru_get (fileCache st) file of
                  (cache, fc1) \<Rightarrow> (cache, st\<lparr>fileCache := fc1\<rparr>))
          else (None, st))"

definition getCacheForPath ::
  "'e Env \<Rightarrow> string \<Rightarrow> 'e BibManager \<Rightarrow> FileCache option \<times> 'e BibManager" where
  "getCacheForPath env filePath st = cachedForPath env filePath st"

definition getResolution ::
  "'e Env \<Rightarrow> string \<Rightarrow> string \<Rightarrow> 'e BibManager \<Rightarrow> (bool \<times> bool) \<times> 'e BibManager" where
  "getResolution env filePath key st =
     (case cachedForPath env filePath st of
        (None, st1) \<Rightarrow> ((False, False), st1)
      | (Some cache, st1) \<Rightarrow> ((key \<in> resolvedKeys cache, key \<in> unresolvedKeys cache), st1))"

definition getCitationsForSection ::
  "'e Env \<Rightarrow> string \<Rightarrow> nat \<Rightarrow> nat \<Rightarrow> 'e BibManager
     \<Rightarrow> (error + RenderedCitation list) \<times> 'e BibManager" where
  "getCitationsForSection env filePath lineStart lineEnd st =
     (case cachedForPath env filePath st of
        (None, st1) \<Rightarrow> (Inr [], st1)
      | (Some cache, st1) \<Rightarrow>
          (case getCache env filePath of
             None \<Rightarrow> (Inl (TypeError ''mCache is null''), st1)
           | Some None \<Rightarrow> (Inr [], st1)
           | Some (Some sections) \<Rightarrow>
               (case find (\<lambda>s. start_line s = lineStart \<and> end_line s = lineEnd) sections of
                  None \<Rightarrow> (Inr [], st1)
                | Some section \<Rightarrow>
                    (Inr (filter (\<lambda>c. rc_from c \<ge> start_offset section
                                       \<and> rc_to c \<le> end_offset section) (citations cache)),
                     st1))))"

section \<open>The manager over time\<close>

text \<open>The manager as its constructor leaves it.\<close>

definition is_new :: "'e BibManager \<Rightarrow> bool" where
  "is_new st = (fileCache st = [] \<and> langCache st = Map.empty \<and> styleCache st = Map.empty
                 \<and> bibCache st = Map.empty \<and> fuse st = None \<and> engine st = None)"

text \<open>
  The states a manager can be in. \<open>reinit\<close> and \<open>destroy\<close> clear the file cache and write
  other fields; \<open>loadGlobalBibFile\<close>, \<open>loadGlobalZBib\<close>, \<open>getLangAndStyle\<close>,
  \<open>loadLangs\<close>, \<open>loadStyles\<close>, \<open>setFuse\<close> and \<open>buildEngine\<close> write other fields only
  (rules \<open>cleared\<close> and \<open>other_fields\<close>); the remaining methods are the functions above.
\<close>

inductive reachable :: "'e BibManager \<Rightarrow> bool" where
  new: "is_new st \<Longrightarrow> reachable st"
| cleared: "reachable st \<Longrightarrow> fileCache st' = lru_clear (fileCache st) \<Longrightarrow> reachable st'"
| other_fields: "reachable st \<Longrightarrow> fileCache st' = fileCache st \<Longrightarrow> reachable st'"
| reference_list:
    "reachable st \<Longrightarrow> reachable (snd (getReferenceList env file content st))"
| note_for_index:
    "reachable st \<Longrightarrow> reachable (snd (getNoteForNoteIndex env file index st))"
| bib_for_key:
    "reachable st \<Longrightarrow> reachable (snd (getBibForCiteKey env file key st))"
| cache_for_path:
    "reachable st \<Longrightarrow> reachable (snd (getCacheForPath env filePath st))"
| resolution:
    "reachable st \<Longrightarrow> reachable (snd (getResolution env filePath key st))"
| citations_for_section:
    "reachable st \<Longrightarrow>
       reachable (snd (getCitationsForSection env filePath lineStart lineEnd st))"

section \<open>A small environment for the worked examples\<close>

text \<open>
  A parser for texts such as \<open>smith99;doe2000,lee2010\<close>: groups are separated by
  semicolons, the keys of a group by commas. An engine whose state is the list of
  groups it rendered last. Every fetch succeeds.
\<close>

fun split_on :: "char \<Rightarrow> string \<Rightarrow> string list" where
  "split_on sep [] = [[]]"
| "split_on sep (x # xs) =
     (if x = sep then [] # split_on sep xs
      else (case split_on sep xs of
              [] \<Rightarrow> [[x]]
            | w # ws \<Rightarrow> (x # w) # ws))"

definition key_segment :: "string \<Rightarrow> Segment" where
  "key_segment k = \<lparr>seg_type = ''key'', seg_val = k, seg_from = 0, seg_to = length k\<rparr>"

definition example_env :: "CitationGroup list Env" where
  "example_env =
     \<lparr>metadataCache = (\<lambda>f. None),
      getAbstractFileByPath = (\<lambda>p. None),
      getCache = (\<lambda>p. None),
      parseInt = (\<lambda>s. None),
      getCitationSegments = (\<lambda>content.
                if content = [] then []
                else map (\<lambda>g. map key_segment (split_on CHR '','' g))
                       (split_on CHR '';'' content)),
      getCitations = (\<lambda>segs. \<lparr>g_citations = map (\<lambda>s. \<lparr>c_id = seg_val s, c_rest = []\<rparr>) segs,
                                 g_data = segs\<rparr>),
      fetchStyle = (\<lambda>sid path. Inr ''<style/>''),
      fetchLocale = (\<lambda>l. Inr ''<locale/>''),
      bibToCSL = (\<lambda>path pandoc. Inr []),
      extractRawLocales = (\<lambda>styleStr l. [''en-US'']),
      newEngine = (\<lambda>lng lc sty bc. Inr []),
      cite = (\<lambda>eng groups.
                (Inr (map (\<lambda>g. \<lparr>rc_citations = g_citations g, rc_data = g_data g,
                                  val = ''(cited)'', rc_from = 0, rc_to = 0,
                                  note_html = None, noteIndex = None\<rparr>) groups), groups)),
      makeBibliography = (\<lambda>eng.
                (Inr (BibPair \<lparr>bibstart = ''<div>'', bibend = ''</div>'', entry_ids = None\<rparr>
                        (map (\<lambda>g. ''<p/>'') eng)), eng)),
      firstChild = (\<lambda>html. Some html),
      childNodes = (\<lambda>html. [html])\<rparr>"

text \<open>A manager as the constructor leaves it.\<close>

definition new_manager :: "CitationGroup list BibManager" where
  "new_manager =
     \<lparr>fileCache = [], langCache = Map.empty, styleCache = Map.empty, bibCache = Map.empty,
      fuse = None, engine = None, heap = (\<lambda>r. []), next_obj = 0,
      pluginSettings = \<lparr>cslStyleURL = None, cslLang = None, pathToPandoc = ''pandoc''\<rparr>,
      cacheDir = ''cache'', trace = []\<rparr>"

text \<open>Two style objects, and a manager that has one style and one locale cached.\<close>

definition apa :: StyleObj where
  "apa = \<lparr>so_id = Some ''apa'', explicitPath = None\<rparr>"

definition my_csl :: StyleObj where
  "my_csl = \<lparr>so_id = Some ''my.csl'', explicitPath = Some ''my.csl''\<rparr>"

definition warm_manager :: "CitationGroup list BibManager" where
  "warm_manager =
     new_manager\<lparr>langCache := [''en-US'' \<mapsto> ''<locale/>''],
                  styleCache := [''apa'' \<mapsto> ''<style/>'']\<rparr>"

section \<open>Notions for the properties\<close>

text \<open>
  The events of loading a scope, as against those of rendering and delivering; and what a
  call that only loads leaves alone: the file cache, the manager's own bibliography,
  index and engine, the plugin settings and the engine objects that exist.
\<close>

fun is_load_event :: "event \<Rightarrow> bool" where
  "is_load_event (Cite r gs out) = False"
| "is_load_event (MakeBibliography r out) = False"
| "is_load_event (Dispatch f d) = False"
| "is_load_event ev = True"

definition loads_only :: "'e BibManager \<Rightarrow> 'e BibManager \<Rightarrow> bool" where
  "loads_only st st' =
     (fileCache st' = fileCache st \<and> bibCache st' = bibCache st \<and> fuse st' = fuse st
      \<and> engine st' = engine st \<and> pluginSettings st' = pluginSettings st
      \<and> (\<forall>r < next_obj st. heap st' r = heap st r) \<and> next_obj st \<le> next_obj st'
      \<and> (\<exists>evs. trace st' = trace st @ evs \<and> list_all is_load_event evs))"

text \<open>
  All ids of the citations of the groups, and a group all of whose citations are in the
  bibliography lookup.
\<close>

definition all_ids :: "CitationGroup list \<Rightarrow> string set" where
  "all_ids processed = (\<Union>g \<in> set processed. c_id ` set (g_citations g))"

definition resolves :: "(string \<rightharpoonup> PartialCSLEntry) \<Rightarrow> CitationGroup \<Rightarrow> bool" where
  "resolves bc g = (\<forall>c \<in> set (g_citations g). bc (c_id c) \<noteq> None)"

text \<open>The result that \<open>setNull\<close> stores when neither set has been filled.\<close>

definition null_result :: "string set \<Rightarrow> Source \<Rightarrow> FileCache" where
  "null_result citeKeys src =
     \<lparr>keys = citeKeys, resolvedKeys = {}, unresolvedKeys = {}, bib = None, citations = [],
      citeBibMap = Map.empty, settings = None, source = src\<rparr>"

text \<open>
  A manager with a bibliography of one entry and an engine; the group, the rendered citation
  and the cache entry of a document that cites that entry.
\<close>

definition ready_manager :: "CitationGroup list BibManager" where
  "ready_manager =
     new_manager\<lparr>bibCache := [''smith99'' \<mapsto> \<lparr>entry_id = ''smith99'', title = Some ''A book''\<rparr>],
                  engine := Some 0, next_obj := 1\<rparr>"

definition smith99_group :: CitationGroup where
  "smith99_group =
     \<lparr>g_citations = [\<lparr>c_id = ''smith99'', c_rest = []\<rparr>],
      g_data = [key_segment ''smith99'']\<rparr>"

definition smith99_cited :: RenderedCitation where
  "smith99_cited =
     \<lparr>rc_citations = g_citations smith99_group, rc_data = g_data smith99_group,
      val = ''(cited)'', rc_from = 0, rc_to = 0, note_html = None, noteIndex = None\<rparr>"

definition smith99_entry :: FileCache where
  "smith99_entry =
     \<lparr>keys = {''smith99''}, resolvedKeys = {''smith99''}, unresolvedKeys = {},
      bib = Some (Element 1 ''<div><p/></div>''), citations = [smith99_cited],
      citeBibMap = Map.empty, settings = None, source = This\<rparr>"

text \<open>
  A second group, one of whose keys is not in the bibliography, and the cache entry of a
  document with both groups.
\<close>

definition doe2000_group :: CitationGroup where
  "doe2000_group =
     \<lparr>g_citations = [\<lparr>c_id = ''doe2000'', c_rest = []\<rparr>, \<lparr>c_id = ''smith99'', c_rest = []\<rparr>],
      g_data = [key_segment ''doe2000'', key_segment ''smith99'']\<rparr>"

definition mixed_entry :: FileCache where
  "mixed_entry =
     \<lparr>keys = {''smith99'', ''doe2000''}, resolvedKeys = {''smith99''},
      unresolvedKeys = {''doe2000''},
      bib = Some (Element 1 ''<div><p/></div>''), citations = [smith99_cited],
      citeBibMap = Map.empty, settings = None, source = This\<rparr>"

text \<open>
  Two engines that give no bibliography: one returns the pair with no entries, the other
  \<open>false\<close>; and the cache entries they lead to.
\<close>

definition div_metadata :: BibMetadata where
  "div_metadata = \<lparr>bibstart = ''<div>'', bibend = ''</div>'', entry_ids = None\<rparr>"

definition no_entries_env :: "CitationGroup list Env" where
  "no_entries_env =
     example_env\<lparr>makeBibliography := (\<lambda>eng. (Inr (BibPair div_metadata []), eng))\<rparr>"

definition no_bibliography_env :: "CitationGroup list Env" where
  "no_bibliography_env = example_env\<lparr>makeBibliography := (\<lambda>eng. (Inr BibNone, eng))\<rparr>"

definition unlisted_entry :: FileCache where
  "unlisted_entry =
     \<lparr>keys = {''smith99''}, resolvedKeys = {''smith99''}, unresolvedKeys = {},
      bib = None, citations = [smith99_cited], citeBibMap = Map.empty, settings = None,
      source = This\<rparr>"

definition discarded_entry :: FileCache where
  "discarded_entry =
     \<lparr>keys = {''smith99''}, resolvedKeys = {''smith99''}, unresolvedKeys = {},
      bib = None, citations = [], citeBibMap = Map.empty, settings = None,
      source = This\<rparr>"

text \<open>An operation that reads the file cache, or stores one result in it.\<close>

definition touches ::
  "(TFile \<times> FileCache) list \<Rightarrow> (TFile \<times> FileCache) list \<Rightarrow> (FileCache \<Rightarrow> bool) \<Rightarrow> bool" where
  "touches c c' P =
     (c' = c \<or> (\<exists>k. c' = snd (lru_get c k))
      \<or> (\<exists>k d. c' = lru_set (snd (lru_get c k)) k d \<and> P d))"

text \<open>
  Settings as \<open>getScopedSettings\<close> gives them: absent, or with a field that is not empty.
\<close>

definition wf_settings :: "ScopedSettings option \<Rightarrow> bool" where
  "wf_settings s =
     (case s of
        None \<Rightarrow> True
      | Some x \<Rightarrow> truthy (bibliography x) \<or> truthy (style x) \<or> truthy (lang x))"

text \<open>
  The manager after passes over \<open>n\<close> documents, numbered from 0, each citing the one key
  \<open>smith99\<close>, with no engine.
\<close>

fun visited :: "nat \<Rightarrow> CitationGroup list BibManager" where
  "visited 0 = new_manager"
| "visited (Suc n) = snd (getReferenceList example_env (TFile n) ''smith99'' (visited n))"


text \<open>
  A document whose front matter names a style of its own; the settings this gives, and
  the scope, the cache entry and the manager after a first pass over the document.
\<close>

definition styled_env :: "CitationGroup list Env" where
  "styled_env =
     example_env\<lparr>metadataCache :=
       (\<lambda>f. Some \<lparr>fm_bibliography = None, fm_csl = Some '' my.csl '', fm_citation_style = None,
                   fm_lang = None, fm_citation_language = None\<rparr>)\<rparr>"

definition my_settings :: ScopedSettings where
  "my_settings = \<lparr>style = Some ''my.csl'', lang = None, bibliography = None\<rparr>"

definition styled_source :: Source where
  "styled_source = Scoped (bibCache ready_manager) None 1"

definition styled_entry :: FileCache where
  "styled_entry =
     \<lparr>keys = {''smith99''}, resolvedKeys = {''smith99''}, unresolvedKeys = {},
      bib = Some (Element 2 ''<div><p/></div>''), citations = [smith99_cited],
      citeBibMap = Map.empty, settings = Some my_settings, source = styled_source\<rparr>"

definition styled_manager :: "CitationGroup list BibManager" where
  "styled_manager =
     ready_manager\<lparr>fileCache := [(TFile 7, styled_entry)],
                    styleCache := [''my.csl'' \<mapsto> ''<style/>''],
                    heap := (heap ready_manager)(1 := [smith99_group]),
                    next_obj := 3,
                    trace := [FetchStyle (Some ''my.csl'') (Some ''my.csl''), BuildEngine 1,
                              Cite 1 [smith99_group] (Inr [smith99_cited]),
                              MakeBibliography 1 (Inr (BibPair div_metadata [''<p/>''])),
                              Dispatch (TFile 7) styled_entry]\<rparr>"

text \<open>
  A document with a style of its own whose style cannot be read, the cache entry its pass
  leaves when the manager has an engine of its own; and a document with a bibliography of
  its own that cannot be converted.
\<close>

definition failing_env :: "CitationGroup list Env" where
  "failing_env = styled_env\<lparr>fetchStyle := (\<lambda>sid path. Inl (Error ''ENOENT''))\<rparr>"

definition fallback_entry :: FileCache where
  "fallback_entry =
     \<lparr>keys = {''smith99''}, resolvedKeys = {''smith99''}, unresolvedKeys = {},
      bib = Some (Element 1 ''<div><p/></div>''), citations = [smith99_cited],
      citeBibMap = Map.empty, settings = Some my_settings, source = This\<rparr>"

definition bib_settings :: ScopedSettings where
  "bib_settings = \<lparr>style = None, lang = None, bibliography = Some ''refs.bib''\<rparr>"

definition no_pandoc_env :: "CitationGroup list Env" where
  "no_pandoc_env =
     example_env\<lparr>metadataCache :=
       (\<lambda>f. Some \<lparr>fm_bibliography = Some ''refs.bib'', fm_csl = None,
                   fm_citation_style = None, fm_lang = None, fm_citation_language = None\<rparr>),
       bibToCSL := (\<lambda>path pandoc. Inl (Error ''pandoc failed''))\<rparr>"

text \<open>
  The manager after a pass over a document that cites \<open>smith99\<close>, with engine and
  bibliography.
\<close>

definition cited_manager :: "CitationGroup list BibManager" where
  "cited_manager =
     ready_manager\<lparr>fileCache := [(TFile 0, smith99_entry)],
                    heap := (heap ready_manager)(0 := [smith99_group]),
                    next_obj := 2,
                    trace := [Cite 0 [smith99_group] (Inr [smith99_cited]),
                              MakeBibliography 0 (Inr (BibPair div_metadata [''<p/>''])),
                              Dispatch (TFile 0) smith99_entry]\<rparr>"

section \<open>Properties\<close>

subsection \<open>Style and locale loading\<close>

lemma getCSLStyle_keeps:
  "getCSLStyle env st sid path = (r, st') \<Longrightarrow> styleCache st k \<noteq> None \<Longrightarrow> styleCache st' k \<noteq> None"
  by (auto simp: getCSLStyle_def record_event_def split: option.splits sum.splits)

lemma getCSLStyle_memo:
  "getCSLStyle env st sid path = (Inr doc, st') \<Longrightarrow>
     \<exists>k. (case path of Some p \<Rightarrow> Some p | None \<Rightarrow> sid) = Some k \<and> styleCache st' k = Some doc"
  by (auto simp: getCSLStyle_def record_event_def split: option.splits sum.splits)

lemma loadStyles_keeps:
  "loadStyles env styles st = (r, st') \<Longrightarrow> styleCache st k \<noteq> None \<Longrightarrow> styleCache st' k \<noteq> None"
proof (induction styles arbitrary: st r st')
  case Nil
  then show ?case by simp
next
  case (Cons s ss)
  then show ?case
    by (auto split: if_splits prod.splits sum.splits dest: getCSLStyle_keeps)
qed

lemma loadStyles_cached:
  "\<forall>s \<in> set styles. (\<not> truthy (so_id s) \<and> \<not> truthy (explicitPath s))
       \<or> cache_has (styleCache st) (style_key s) \<Longrightarrow>
   loadStyles env styles st = (Inr [], st)"
  by (induction styles) auto

lemma loadStyles_memo:
  "loadStyles env styles st = (Inr docs, st') \<Longrightarrow> s \<in> set styles \<Longrightarrow>
   truthy (so_id s) \<or> truthy (explicitPath s) \<Longrightarrow> cache_has (styleCache st') (style_key s)"
proof (induction styles arbitrary: st docs st')
  case Nil
  then show ?case by simp
next
  case (Cons a ss)
  show ?case
  proof (cases "s = a")
    case False
    with Cons show ?thesis
      by (auto split: if_splits prod.splits sum.splits)
  next
    case True
    show ?thesis
    proof (cases "cache_has (styleCache st) (style_key a)")
      case True
      with Cons.prems \<open>s = a\<close> have "loadStyles env ss st = (Inr docs, st')"
        by (auto split: if_splits)
      from loadStyles_keeps[OF this] True \<open>s = a\<close> show ?thesis
        by (auto simp: cache_has_def split: option.splits)
    next
      case False
      with Cons.prems \<open>s = a\<close> obtain doc st1 rest where
        g: "getCSLStyle env st (so_id a) (explicitPath a) = (Inr doc, st1)" and
        l: "loadStyles env ss st1 = (Inr rest, st')"
        by (auto split: if_splits prod.splits sum.splits)
      from getCSLStyle_memo[OF g] obtain k where
        "style_key a = Some k" "styleCache st1 k = Some doc"
        by (auto simp: style_key_def)
      with loadStyles_keeps[OF l, of k] \<open>s = a\<close> show ?thesis
        by (auto simp: cache_has_def)
    qed
  qed
qed

lemma loadStyles_again:
  "loadStyles env styles st = (Inr docs, st') \<Longrightarrow> loadStyles env styles st' = (Inr [], st')"
  by (rule loadStyles_cached) (auto dest: loadStyles_memo)

lemma getCSLLocale_keeps:
  "getCSLLocale env st l = (r, st') \<Longrightarrow> langCache st k \<noteq> None \<Longrightarrow> langCache st' k \<noteq> None"
  by (auto simp: getCSLLocale_def record_event_def split: option.splits sum.splits)

lemma getCSLLocale_memo:
  "getCSLLocale env st l = (Inr doc, st') \<Longrightarrow> langCache st' l = Some doc"
  by (auto simp: getCSLLocale_def record_event_def split: option.splits sum.splits)

lemma loadLangs_keeps:
  "loadLangs env langs st = (r, st') \<Longrightarrow> langCache st k \<noteq> None \<Longrightarrow> langCache st' k \<noteq> None"
proof (induction langs arbitrary: st r st')
  case Nil
  then show ?case by simp
next
  case (Cons l ls)
  then show ?case
    by (auto split: if_splits prod.splits sum.splits option.splits dest: getCSLLocale_keeps)
qed

lemma loadLangs_cached:
  "\<forall>l \<in> set langs. \<not> truthy l \<or> cache_has (langCache st) l \<Longrightarrow>
   loadLangs env langs st = (Inr (), st)"
  by (induction langs) (auto simp: truthy_def cache_has_def split: option.splits)

lemma loadLangs_memo:
  "loadLangs env langs st = (Inr u, st') \<Longrightarrow> l \<in> set langs \<Longrightarrow> truthy l \<Longrightarrow>
   cache_has (langCache st') l"
proof (induction langs arbitrary: st st')
  case Nil
  then show ?case by simp
next
  case (Cons a ls)
  show ?case
  proof (cases "l = a")
    case False
    with Cons show ?thesis
      by (auto split: if_splits prod.splits sum.splits option.splits)
  next
    case True
    with Cons.prems obtain v where v: "a = Some v" "v \<noteq> []"
      by (auto simp: truthy_def split: option.splits)
    show ?thesis
    proof (cases "langCache st v")
      case (Some d)
      with Cons.prems v have "loadLangs env ls st = (Inr u, st')" by simp
      from loadLangs_keeps[OF this, of v] Some v True show ?thesis
        by (auto simp: cache_has_def)
    next
      case None
      with Cons.prems v obtain doc st1 where
        g: "getCSLLocale env st v = (Inr doc, st1)" and
        r: "loadLangs env ls st1 = (Inr u, st')"
        by (auto split: prod.splits sum.splits)
      from getCSLLocale_memo[OF g] loadLangs_keeps[OF r, of v] v True show ?thesis
        by (auto simp: cache_has_def)
    qed
  qed
qed

lemma loadLangs_again:
  "loadLangs env langs st = (Inr u, st') \<Longrightarrow> loadLangs env langs st' = (Inr (), st')"
  by (rule loadLangs_cached) (auto dest: loadLangs_memo)


text \<open>
  C9. \<open>loadStyles\<close> fetches nothing and changes nothing when the key
  \<open>explicitPath ?? id\<close> of every style it is given is in \<open>styleCache\<close>, and
  \<open>loadLangs\<close> likewise for locales in \<open>langCache\<close>. A style that is not cached is
  fetched once and stored under its \<open>explicitPath\<close> when it has one and under its \<open>id\<close>
  otherwise. After a load that succeeded every style and locale of the call is cached, so
  that the same call again leaves the manager as it is, with no fetch.
\<close>

theorem loadStyles_loadLangs_memoize:
  "((\<forall>s \<in> set styles. (\<not> truthy (so_id s) \<and> \<not> truthy (explicitPath s))
         \<or> cache_has (styleCache st) (style_key s))
      \<longrightarrow> loadStyles env styles st = (Inr [], st))
   \<and> ((\<forall>l \<in> set langs. \<not> truthy l \<or> cache_has (langCache st) l)
      \<longrightarrow> loadLangs env langs st = (Inr (), st))
   \<and> ((truthy (so_id s) \<or> truthy (explicitPath s))
        \<and> \<not> cache_has (styleCache st) (style_key s)
        \<and> fetchStyle env (so_id s) (explicitPath s) = Inr doc
      \<longrightarrow> (\<exists>k. (explicitPath s = Some k \<or> explicitPath s = None \<and> so_id s = Some k)
             \<and> loadStyles env [s] st =
                 (Inr [doc], (record_event (FetchStyle (so_id s) (explicitPath s)) st)
                               \<lparr>styleCache := (styleCache st)(k \<mapsto> doc)\<rparr>)))
   \<and> (loadStyles env styles st = (Inr docs, st1)
      \<longrightarrow> (\<forall>s \<in> set styles. truthy (so_id s) \<or> truthy (explicitPath s)
              \<longrightarrow> cache_has (styleCache st1) (style_key s))
          \<and> loadStyles env styles st1 = (Inr [], st1))
   \<and> (loadLangs env langs st = (Inr u, st2)
      \<longrightarrow> (\<forall>l \<in> set langs. truthy l \<longrightarrow> cache_has (langCache st2) l)
          \<and> loadLangs env langs st2 = (Inr (), st2))"
proof (intro conjI impI)
  assume "\<forall>s \<in> set styles. (\<not> truthy (so_id s) \<and> \<not> truthy (explicitPath s))
         \<or> cache_has (styleCache st) (style_key s)"
  then show "loadStyles env styles st = (Inr [], st)" by (rule loadStyles_cached)
next
  assume "\<forall>l \<in> set langs. \<not> truthy l \<or> cache_has (langCache st) l"
  then show "loadLangs env langs st = (Inr (), st)" by (rule loadLangs_cached)
next
  assume a: "(truthy (so_id s) \<or> truthy (explicitPath s))
        \<and> \<not> cache_has (styleCache st) (style_key s)
        \<and> fetchStyle env (so_id s) (explicitPath s) = Inr doc"
  then obtain k where k: "style_key s = Some k"
    by (cases "explicitPath s"; cases "so_id s") (auto simp: style_key_def truthy_def)
  with a have "styleCache st k = None" by (simp add: cache_has_def)
  with a k show "\<exists>k. (explicitPath s = Some k \<or> explicitPath s = None \<and> so_id s = Some k)
             \<and> loadStyles env [s] st =
                 (Inr [doc], (record_event (FetchStyle (so_id s) (explicitPath s)) st)
                               \<lparr>styleCache := (styleCache st)(k \<mapsto> doc)\<rparr>)"
    by (cases "explicitPath s") (auto simp: style_key_def getCSLStyle_def cache_has_def)
next
  assume "loadStyles env styles st = (Inr docs, st1)"
  then show "\<forall>s \<in> set styles. truthy (so_id s) \<or> truthy (explicitPath s)
              \<longrightarrow> cache_has (styleCache st1) (style_key s)"
    by (blast dest: loadStyles_memo)
next
  assume "loadStyles env styles st = (Inr docs, st1)"
  then show "loadStyles env styles st1 = (Inr [], st1)" by (rule loadStyles_again)
next
  assume "loadLangs env langs st = (Inr u, st2)"
  then show "\<forall>l \<in> set langs. truthy l \<longrightarrow> cache_has (langCache st2) l"
    by (blast dest: loadLangs_memo)
next
  assume "loadLangs env langs st = (Inr u, st2)"
  then show "loadLangs env langs st2 = (Inr (), st2)" by (rule loadLangs_again)
qed

theorem loadStyles_loadLangs_memoize_witness:
  "cache_has (styleCache warm_manager) (style_key apa)
   \<and> loadStyles example_env [apa] warm_manager = (Inr [], warm_manager)
   \<and> cache_has (langCache warm_manager) (Some ''en-US'')
   \<and> loadLangs example_env [Some ''en-US''] warm_manager = (Inr (), warm_manager)
   \<and> \<not> cache_has (styleCache warm_manager) (style_key my_csl)
   \<and> fetchStyle example_env (so_id my_csl) (explicitPath my_csl) = Inr ''<style/>''
   \<and> loadStyles example_env [my_csl] warm_manager =
        (Inr [''<style/>''],
         (record_event (FetchStyle (Some ''my.csl'') (Some ''my.csl'')) warm_manager)
           \<lparr>styleCache := (styleCache warm_manager)(''my.csl'' \<mapsto> ''<style/>'')\<rparr>)"
  using loadStyles_loadLangs_memoize [of "[apa]" warm_manager example_env "[Some ''en-US'']"
          my_csl "''<style/>''" "[]" warm_manager "()" warm_manager]
  by (simp add: apa_def my_csl_def warm_manager_def new_manager_def example_env_def
        cache_has_def style_key_def truthy_def getCSLStyle_def record_event_def)

subsection \<open>Loading a scope changes nothing else\<close>

lemma loads_only_refl: "loads_only st st"
  by (simp add: loads_only_def)

lemma loads_only_trans: "loads_only a b \<Longrightarrow> loads_only b c \<Longrightarrow> loads_only a c"
  by (auto simp: loads_only_def)

lemma loads_only_event: "is_load_event ev \<Longrightarrow> loads_only st (record_event ev st)"
  by (simp add: loads_only_def record_event_def)

lemma loads_only_then_event:
  "loads_only a b \<Longrightarrow> is_load_event ev \<Longrightarrow> loads_only a (record_event ev b)"
  by (auto simp: loads_only_def record_event_def)

lemma getCSLStyle_loads: "getCSLStyle env st sid path = (r, st') \<Longrightarrow> loads_only st st'"
  by (auto simp: getCSLStyle_def record_event_def loads_only_def split: option.splits sum.splits)

lemma getCSLLocale_loads: "getCSLLocale env st l = (r, st') \<Longrightarrow> loads_only st st'"
  by (auto simp: getCSLLocale_def record_event_def loads_only_def split: option.splits sum.splits)

lemma loadStyles_loads: "loadStyles env styles st = (r, st') \<Longrightarrow> loads_only st st'"
proof (induction styles arbitrary: st r st')
  case Nil
  then show ?case by (simp add: loads_only_refl)
next
  case (Cons s ss)
  then show ?case
    by (auto split: if_splits prod.splits sum.splits
        dest!: getCSLStyle_loads intro: loads_only_trans)
qed

lemma loadLangs_loads: "loadLangs env langs st = (r, st') \<Longrightarrow> loads_only st st'"
proof (induction langs arbitrary: st r st')
  case Nil
  then show ?case by (simp add: loads_only_refl)
next
  case (Cons l ls)
  then show ?case
    by (auto split: if_splits prod.splits sum.splits option.splits
        dest!: getCSLLocale_loads intro: loads_only_trans)
qed

lemma tryStyle_loads: "tryStyle env s style0 st = (r, st') \<Longrightarrow> loads_only st st'"
  by (auto simp: tryStyle_def Let_def loads_only_refl simp del: loadStyles.simps
      split: option.splits if_splits prod.splits sum.splits dest!: loadStyles_loads)

lemma tryLang_loads: "tryLang env s langs lang0 st = (r, st') \<Longrightarrow> loads_only st st'"
  by (auto simp: tryLang_def loads_only_refl
      split: option.splits if_splits prod.splits sum.splits dest!: loadLangs_loads)

lemma tryBibliography_loads: "tryBibliography env s st = (r, st') \<Longrightarrow> loads_only st st'"
  by (auto simp: tryBibliography_def Let_def loads_only_refl loads_only_event
      split: option.splits if_splits prod.splits sum.splits)

lemma buildEngine_loads: "buildEngine env lng sty bc st = (r, st') \<Longrightarrow> loads_only st st'"
  by (auto simp: buildEngine_def record_event_def loads_only_def split: sum.splits)

lemma loadScopedEngine_loads:
  assumes "loadScopedEngine env scoped st = (r, st')"
  shows "loads_only st st'"
proof (cases scoped)
  case None
  with assms show ?thesis by (simp add: loadScopedEngine_def loads_only_refl)
next
  case (Some s)
  define style0 where "style0 = globalStyle st"
  define lang0 where "lang0 = globalLang st"
  obtain r1 st1 where t1: "tryStyle env s style0 st = (r1, st1)" by force
  note l1 = tryStyle_loads[OF t1]
  show ?thesis
  proof (cases r1)
    case (Inl e)
    with assms Some t1 have "st' = record_event (ConsoleError e) st1"
      by (simp add: loadScopedEngine_def style0_def)
    with l1 show ?thesis by (simp add: loads_only_then_event)
  next
    case (Inr p)
    obtain langs sty where p: "p = (langs, sty)" by force
    obtain r2 st2 where t2: "tryLang env s langs lang0 st1 = (r2, st2)" by force
    have l2: "loads_only st st2" using l1 tryLang_loads[OF t2] by (rule loads_only_trans)
    show ?thesis
    proof (cases r2)
      case (Inl e)
      with assms Some t1 t2 Inr p have "st' = record_event (ConsoleError e) st2"
        by (simp add: loadScopedEngine_def style0_def lang0_def)
      with l2 show ?thesis by (simp add: loads_only_then_event)
    next
      case lng: (Inr lng)
      obtain r3 st3 where t3: "tryBibliography env s st2 = (r3, st3)" by force
      have l3: "loads_only st st3"
        using l2 tryBibliography_loads[OF t3] by (rule loads_only_trans)
      show ?thesis
      proof (cases r3)
        case (Inl e)
        with assms Some t1 t2 t3 Inr p lng have "st' = record_event (ConsoleError e) st3"
          by (simp add: loadScopedEngine_def style0_def lang0_def)
        with l3 show ?thesis by (simp add: loads_only_then_event)
      next
        case b: (Inr b)
        obtain bc fz where b2: "b = (bc, fz)" by force
        obtain r4 where "buildEngine env lng sty bc st3 = (r4, st')"
          using assms Some t1 t2 t3 Inr p lng b b2
          by (auto simp: loadScopedEngine_def style0_def lang0_def split: prod.splits sum.splits)
        from l3 buildEngine_loads[OF this] show ?thesis by (rule loads_only_trans)
      qed
    qed
  qed
qed

lemma selectSource_loads:
  "selectSource env scoped cachedDoc st = (r, st') \<Longrightarrow> loads_only st st'"
  by (auto simp: selectSource_def loads_only_refl split: option.splits if_splits
      dest: loadScopedEngine_loads)

subsection \<open>Resolved and unresolved keys\<close>

lemma collectKeys_ids: "collectKeys processed = all_ids processed - {[]}"
  by (auto simp: collectKeys_def all_ids_def)

lemma everyResolved_sets:
  "everyResolved bc cs (R, U) = (ok, R', U') \<Longrightarrow>
     (ok \<longleftrightarrow> (\<forall>c \<in> set cs. bc (c_id c) \<noteq> None))
     \<and> R \<subseteq> R' \<and> U \<subseteq> U'
     \<and> R' \<subseteq> R \<union> {k \<in> c_id ` set cs. bc k \<noteq> None}
     \<and> U' \<subseteq> U \<union> {k \<in> c_id ` set cs. bc k = None}"
proof (induction cs arbitrary: R U)
  case Nil
  then show ?case by simp
next
  case (Cons c cs)
  show ?case
  proof (cases "bc (c_id c) \<noteq> None")
    case True
    with Cons.prems have "everyResolved bc cs (insert (c_id c) R, U) = (ok, R', U')" by simp
    from Cons.IH[OF this] True show ?thesis by auto
  next
    case False
    with Cons.prems show ?thesis by auto
  qed
qed

lemma filterResolved_sets:
  "filterResolved bc gs (R, U) = (fs, R', U') \<Longrightarrow>
     fs = filter (resolves bc) gs
     \<and> R \<subseteq> R' \<and> U \<subseteq> U'
     \<and> R' \<subseteq> R \<union> {k \<in> all_ids gs. bc k \<noteq> None}
     \<and> U' \<subseteq> U \<union> {k \<in> all_ids gs. bc k = None}"
proof (induction gs arbitrary: R U fs R' U')
  case Nil
  then show ?case by (simp add: all_ids_def)
next
  case (Cons g gs)
  obtain ok R1 U1 where e: "everyResolved bc (g_citations g) (R, U) = (ok, R1, U1)"
    by (metis prod_cases3)
  obtain rest R2 U2 where f: "filterResolved bc gs (R1, U1) = (rest, R2, U2)"
    by (metis prod_cases3)
  from Cons.prems e f have out: "fs = (if ok then g # rest else rest)" "R' = R2" "U' = U2"
    by simp_all
  note E = everyResolved_sets[OF e]
  note F = Cons.IH[OF f]
  have ids: "all_ids (g # gs) = c_id ` set (g_citations g) \<union> all_ids gs"
    by (simp add: all_ids_def)
  from E F out show ?case
    unfolding ids by (auto simp: resolves_def)
qed

lemma partitionKeys_sets:
  assumes "partitionKeys bc processed (collectKeys processed) = (fs, R, U)"
  shows "fs = filter (resolves bc) processed"
    and "R \<inter> U = {}"
    and "collectKeys processed \<subseteq> R \<union> U"
    and "R \<union> U \<subseteq> all_ids processed"
    and "R \<subseteq> dom bc" and "U \<inter> dom bc = {}"
proof -
  let ?K = "collectKeys processed"
  let ?R0 = "Set.filter (\<lambda>k. bc k \<noteq> None) ?K" and ?U0 = "Set.filter (\<lambda>k. bc k = None) ?K"
  note F = filterResolved_sets[OF assms[unfolded partitionKeys_def]]
  from F show "fs = filter (resolves bc) processed" by simp
  have K: "?K \<subseteq> all_ids processed" "?R0 \<union> ?U0 = ?K" "?R0 \<subseteq> {k. bc k \<noteq> None}"
    "?U0 \<subseteq> {k. bc k = None}"
    by (auto simp: collectKeys_ids)
  from F have lower: "?R0 \<subseteq> R" "?U0 \<subseteq> U" by simp_all
  from F have upR: "R \<subseteq> ?R0 \<union> {k \<in> all_ids processed. bc k \<noteq> None}" by simp
  from F have upU: "U \<subseteq> ?U0 \<union> {k \<in> all_ids processed. bc k = None}" by simp
  have R1: "bc k \<noteq> None" and R2: "k \<in> all_ids processed" if "k \<in> R" for k
    using subsetD[OF upR that] K(1,3) by auto
  have U1: "bc k = None" and U2: "k \<in> all_ids processed" if "k \<in> U" for k
    using subsetD[OF upU that] K(1,4) by auto
  show "R \<inter> U = {}" using R1 U1 by fastforce
  show "?K \<subseteq> R \<union> U"
  proof
    fix k assume k: "k \<in> ?K"
    show "k \<in> R \<union> U"
    proof (cases "bc k")
      case None
      with k have "k \<in> ?U0" by simp
      with lower show ?thesis by (meson UnI2 subsetD)
    next
      case (Some e)
      with k have "k \<in> ?R0" by simp
      with lower show ?thesis by (meson UnI1 subsetD)
    qed
  qed
  show "R \<union> U \<subseteq> all_ids processed" using R2 U2 by auto
  show "R \<subseteq> dom bc" using R1 by (auto simp: dom_def)
  show "U \<inter> dom bc = {}" using U1 by (fastforce simp: dom_def)
qed

subsection \<open>The ways a pass can end\<close>

lemma renderWithSource_outcome:
  assumes "renderWithSource env file processed citeKeys scoped cachedDoc eq src st = (res, st')"
  obtains
    (no_engine) "source_engine st src = None"
      "setNull file citeKeys {} {} src st = (res, st')"
  | (cite_throws) r filtered R U e where
      "source_engine st src = Some r"
      "partitionKeys (source_bibCache st src) processed citeKeys = (filtered, R, U)"
      "callCite env r filtered st = (Inl e, st')" "res = Inl e"
  | (returned_cached) r filtered R U cits d where
      "source_engine st src = Some r"
      "partitionKeys (source_bibCache st src) processed citeKeys = (filtered, R, U)"
      "callCite env r filtered st = (Inr cits, st')"
      "unchanged cachedDoc cits eq = Some d" "res = Inr (bib d)"
  | (bib_throws) r filtered R U cits st1 e where
      "source_engine st src = Some r"
      "partitionKeys (source_bibCache st src) processed citeKeys = (filtered, R, U)"
      "callCite env r filtered st = (Inr cits, st1)"
      "unchanged cachedDoc cits eq = None"
      "callMakeBibliography env r st1 = (Inl e, st')" "res = Inl e"
  | (bib_absent) r filtered R U cits st1 out st2 where
      "source_engine st src = Some r"
      "partitionKeys (source_bibCache st src) processed citeKeys = (filtered, R, U)"
      "callCite env r filtered st = (Inr cits, st1)"
      "unchanged cachedDoc cits eq = None"
      "callMakeBibliography env r st1 = (Inr out, st2)" "out = BibNone \<or> out = BibEmpty"
      "setNull file citeKeys R U src st2 = (res, st')"
  | (bib_stored) r filtered R U cits st1 metadata entries st2 where
      "source_engine st src = Some r"
      "partitionKeys (source_bibCache st src) processed citeKeys = (filtered, R, U)"
      "callCite env r filtered st = (Inr cits, st1)"
      "unchanged cachedDoc cits eq = None"
      "callMakeBibliography env r st1 = (Inr (BibPair metadata entries), st2)"
      "storeBibliography env file citeKeys R U scoped src cits metadata entries st2 = (res, st')"
proof (cases "source_engine st src")
  case None
  with assms show ?thesis by (intro no_engine) (simp_all add: renderWithSource_def)
next
  case (Some r)
  obtain filtered R U where
    p: "partitionKeys (source_bibCache st src) processed citeKeys = (filtered, R, U)"
    by (metis prod_cases3)
  obtain rendered st1 where c: "callCite env r filtered st = (rendered, st1)" by force
  show ?thesis
  proof (cases rendered)
    case (Inl e)
    with assms Some p c show ?thesis
      by (intro cite_throws[of r filtered R U e]) (simp_all add: renderWithSource_def)
  next
    case cits: (Inr cits)
    show ?thesis
    proof (cases "unchanged cachedDoc cits eq")
      case d: (Some d)
      with assms Some p c cits show ?thesis
        by (intro returned_cached[of r filtered R U cits d]) (simp_all add: renderWithSource_def)
    next
      case None
      obtain made st2 where m: "callMakeBibliography env r st1 = (made, st2)" by force
      show ?thesis
      proof (cases made)
        case (Inl e)
        with assms Some p c cits None m show ?thesis
          by (intro bib_throws[of r filtered R U cits st1 e])
            (simp_all add: renderWithSource_def)
      next
        case out: (Inr out)
        show ?thesis
        proof (cases out)
          case BibNone
          with assms Some p c cits None m out show ?thesis
            by (intro bib_absent[of r filtered R U cits st1 out st2])
              (simp_all add: renderWithSource_def)
        next
          case BibEmpty
          with assms Some p c cits None m out show ?thesis
            by (intro bib_absent[of r filtered R U cits st1 out st2])
              (simp_all add: renderWithSource_def)
        next
          case (BibPair metadata entries)
          with assms Some p c cits None m out show ?thesis
            by (intro bib_stored[of r filtered R U cits st1 metadata entries st2])
              (simp_all add: renderWithSource_def)
        qed
      qed
    qed
  qed
qed

lemma storeResult_fields:
  "trace (storeResult file d st) = trace st @ [Dispatch file d]"
  "fileCache (storeResult file d st) = lru_set (fileCache st) file d"
  "map_of (fileCache (storeResult file d st)) file = Some d"
  "engine (storeResult file d st) = engine st"
  "bibCache (storeResult file d st) = bibCache st"
  "heap (storeResult file d st) = heap st"
  "next_obj (storeResult file d st) = next_obj st"
  by (simp_all add: storeResult_def record_event_def lru_set_def max_files_def)

lemma callCite_fields:
  assumes "callCite env r groups st = (out, st')"
  shows "trace st' = trace st @ [Cite r groups out]"
    and "fileCache st' = fileCache st" and "engine st' = engine st"
    and "bibCache st' = bibCache st" and "next_obj st' = next_obj st"
    and "out = fst (cite env (heap st r) groups)"
    and "heap st' = (heap st)(r := snd (cite env (heap st r) groups))"
  using assms by (auto simp: callCite_def record_event_def split: prod.splits)

lemma callMakeBibliography_fields:
  assumes "callMakeBibliography env r st = (out, st')"
  shows "trace st' = trace st @ [MakeBibliography r out]"
    and "fileCache st' = fileCache st" and "engine st' = engine st"
    and "bibCache st' = bibCache st" and "next_obj st' = next_obj st"
    and "out = fst (makeBibliography env (heap st r))"
    and "heap st' = (heap st)(r := snd (makeBibliography env (heap st r)))"
  using assms by (auto simp: callMakeBibliography_def record_event_def split: prod.splits)

subsection \<open>The phases of a pass\<close>

lemma readCached_fields:
  assumes "readCached file st = (cachedDoc, st1)"
  shows "cachedDoc = map_of (fileCache st) file"
    and "fileCache st1 = snd (lru_get (fileCache st) file)"
    and "trace st1 = trace st" and "engine st1 = engine st" and "bibCache st1 = bibCache st"
    and "heap st1 = heap st" and "next_obj st1 = next_obj st"
    and "pluginSettings st1 = pluginSettings st"
  using assms
  by (auto simp: readCached_def lru_has_def lru_get_def split: if_splits option.splits)

lemma getReferenceList_phases:
  assumes "map (getCitations env) (getCitationSegments env content) = processed"
    and "processed \<noteq> []"
    and "readCached file st = (cachedDoc, st1)"
    and "selectSource env (getScopedSettings (metadataCache env file)) cachedDoc st1 = (r, st2)"
  shows "getReferenceList env file content st =
    (case r of
       Inl e \<Rightarrow> (Inl e, st2)
     | Inr src \<Rightarrow>
         renderWithSource env file processed (collectKeys processed)
           (getScopedSettings (metadataCache env file)) cachedDoc
           (areSettingsEqual (getScopedSettings (metadataCache env file)) cachedDoc) src st2)"
  using assms by (auto simp: getReferenceList_def Let_def)


text \<open>The definitions that evaluate a pass on the worked examples.\<close>

lemmas model_defs =
  example_env_def key_segment_def new_manager_def getReferenceList_def readCached_def selectSource_def
  renderWithSource_def setNull_def storeResult_def storeBibliography_def callCite_def
  callMakeBibliography_def unchanged_def partitionKeys_def
  loadScopedEngine_def tryStyle_def tryLang_def
  tryBibliography_def buildEngine_def globalStyle_def globalLang_def default_style_def
  getScopedSettings_def areSettingsEqual_def opt_field_def
  collectKeys_def source_engine_def source_bibCache_def record_event_def lru_has_def
  lru_get_def lru_set_def max_files_def truthy_def cache_has_def style_key_def
  getCSLStyle_def getCSLLocale_def trimmed_def trim_def or_else_def is_space_def
  null_result_def pass_events_def


subsection \<open>A pass without an engine\<close>

text \<open>
  C5, as stated, fails: a pass without an engine does not put the cited keys into
  \<open>unresolvedKeys\<close>. With no engine and one citation \<open>smith99\<close>, the stored result has
  the key in \<open>keys\<close> and an empty \<open>unresolvedKeys\<close>.
\<close>

theorem unresolved_without_engine_counterexample:
  "source_engine new_manager This = None
   \<and> map_of (fileCache (snd (getReferenceList example_env (TFile 0) ''smith99'' new_manager)))
        (TFile 0) = Some (null_result {''smith99''} This)
   \<and> unresolvedKeys (null_result {''smith99''} This) \<noteq> keys (null_result {''smith99''} This)"
  by (auto simp: model_defs)


text \<open>
  C5, amended. When the scope of a pass has no engine, the pass returns \<open>null\<close> and
  stores and dispatches a result with the cited keys in \<open>keys\<close>, empty \<open>resolvedKeys\<close>
  and \<open>unresolvedKeys\<close>, no citations, no bibliography and no settings; the dispatch is
  the only event after the scope was chosen.
\<close>

theorem short_circuit_without_engine:
  assumes "map (getCitations env) (getCitationSegments env content) = processed"
    and "processed \<noteq> []"
    and "readCached file st = (cachedDoc, st1)"
    and "selectSource env (getScopedSettings (metadataCache env file)) cachedDoc st1
           = (Inr src, st2)"
    and "source_engine st2 src = None"
  shows "getReferenceList env file content st
           = (Inr None, storeResult file (null_result (collectKeys processed) src) st2)
         \<and> map_of (fileCache (snd (getReferenceList env file content st))) file
           = Some (null_result (collectKeys processed) src)
         \<and> pass_events st2 (snd (getReferenceList env file content st))
           = [Dispatch file (null_result (collectKeys processed) src)]"
proof -
  have "getReferenceList env file content st
           = (Inr None, storeResult file (null_result (collectKeys processed) src) st2)"
    using getReferenceList_phases[OF assms(1-4)] assms(5)
    by (simp add: renderWithSource_def setNull_def null_result_def)
  then show ?thesis
    by (simp add: storeResult_fields(1,3) pass_events_def)
qed

theorem short_circuit_without_engine_witness:
  "source_engine new_manager This = None
   \<and> getReferenceList example_env (TFile 1) ''doe2000'' new_manager
       = (Inr None, storeResult (TFile 1) (null_result (collectKeys
            (map (getCitations example_env) (getCitationSegments example_env ''doe2000''))) This) new_manager)"
  using short_circuit_without_engine [of example_env "''doe2000''"
      "map (getCitations example_env) (getCitationSegments example_env ''doe2000'')"
      "TFile 1" new_manager None new_manager This new_manager]
  by (simp add: example_env_def new_manager_def readCached_def selectSource_def lru_has_def
      getScopedSettings_def loadScopedEngine_def source_engine_def)

subsection \<open>What a pass stores\<close>

lemma setNull_fields:
  assumes "setNull file citeKeys R U src st = (res, st')"
  shows "res = Inr None"
    and "st' = storeResult file \<lparr>keys = citeKeys, resolvedKeys = R, unresolvedKeys = U,
                     bib = None, citations = [], citeBibMap = Map.empty, settings = None,
                     source = src\<rparr> st"
  using assms by (auto simp: setNull_def)

lemma storeBibliography_fields:
  assumes "storeBibliography env file citeKeys R U scoped src cits metadata entries st = (res, st')"
  obtains d st1 where "st' = storeResult file d st1" "res = Inr (bib d)"
    "keys d = citeKeys" "resolvedKeys d = R" "unresolvedKeys d = U" "citations d = cits"
    "settings d = scoped" "source d = src" "entries = [] \<longrightarrow> bib d = None"
    "trace st1 = trace st" "fileCache st1 = fileCache st" "engine st1 = engine st"
    "bibCache st1 = bibCache st" "heap st1 = heap st"
proof -
  let ?parsed = "if entries \<noteq> []
                 then map_option (Element (next_obj st))
                        (firstChild env (concat (bibstart metadata # entries @ [bibend metadata])))
                 else None"
  let ?d = "\<lparr>keys = citeKeys, resolvedKeys = R, unresolvedKeys = U, bib = ?parsed,
             citations = cits,
             citeBibMap = (case entry_ids metadata of
                             None \<Rightarrow> Map.empty
                           | Some ids \<Rightarrow> setCiteBibMap ids 0 entries Map.empty),
             settings = scoped, source = src\<rparr>"
  let ?st1 = "if entries \<noteq> [] then st\<lparr>next_obj := Suc (next_obj st)\<rparr> else st"
  from assms have "st' = storeResult file ?d ?st1" "res = Inr (bib ?d)"
    by (auto simp: storeBibliography_def Let_def)
  then show thesis
    by (rule that[of ?d ?st1]) auto
qed

text \<open>What a pass stores and dispatches, seen from the events after the scope was chosen.\<close>

lemma renderWithSource_dispatch:
  assumes run: "renderWithSource env file processed citeKeys scoped cachedDoc eq src st = (res, st')"
    and ev: "Dispatch f d \<in> set (pass_events st st')"
  shows "f = file \<and> map_of (fileCache st') file = Some d \<and> keys d = citeKeys
         \<and> source d = src \<and> res = Inr (bib d)
         \<and> (case source_engine st src of
               None \<Rightarrow> d = null_result citeKeys src
             | Some r \<Rightarrow> (\<exists>filtered.
                  partitionKeys (source_bibCache st src) processed citeKeys
                    = (filtered, resolvedKeys d, unresolvedKeys d)))"
  using run
proof (cases rule: renderWithSource_outcome)
  case no_engine
  from setNull_fields[OF no_engine(2)] ev no_engine(1) show ?thesis
    by (auto simp: pass_events_def storeResult_fields(1,3) null_result_def)
next
  case (cite_throws r filtered R U e)
  from callCite_fields(1)[OF cite_throws(3)] ev show ?thesis
    by (simp add: pass_events_def)
next
  case (returned_cached r filtered R U cits d')
  from callCite_fields(1)[OF returned_cached(3)] ev show ?thesis
    by (simp add: pass_events_def)
next
  case (bib_throws r filtered R U cits st1 e)
  from callCite_fields(1)[OF bib_throws(3)] callMakeBibliography_fields(1)[OF bib_throws(5)] ev
  show ?thesis by (simp add: pass_events_def)
next
  case (bib_absent r filtered R U cits st1 out st2)
  from callCite_fields(1)[OF bib_absent(3)] callMakeBibliography_fields(1)[OF bib_absent(5)]
    setNull_fields[OF bib_absent(7)] ev bib_absent(1,2)
  show ?thesis by (auto simp: pass_events_def storeResult_fields(1,3))
next
  case (bib_stored r filtered R U cits st1 metadata entries st2)
  from bib_stored(6) obtain d' st3 where s: "st' = storeResult file d' st3" "res = Inr (bib d')"
    "keys d' = citeKeys" "resolvedKeys d' = R" "unresolvedKeys d' = U"
    "source d' = src" "trace st3 = trace st2"
    by (rule storeBibliography_fields)
  from callCite_fields(1)[OF bib_stored(3)] callMakeBibliography_fields(1)[OF bib_stored(5)]
    s ev bib_stored(1,2)
  show ?thesis by (auto simp: pass_events_def storeResult_fields(1,3))
qed

lemma renderWithSource_trace:
  assumes "renderWithSource env file processed citeKeys scoped cachedDoc eq src st = (res, st')"
  shows "(\<exists>evs. trace st' = trace st @ evs) \<and> engine st' = engine st
         \<and> bibCache st' = bibCache st"
  using assms
proof (cases rule: renderWithSource_outcome)
  case no_engine
  from setNull_fields[OF no_engine(2)] show ?thesis by (simp add: storeResult_fields)
next
  case (cite_throws r filtered R U e)
  from callCite_fields[OF cite_throws(3)] show ?thesis by simp
next
  case (returned_cached r filtered R U cits d')
  from callCite_fields[OF returned_cached(3)] show ?thesis by simp
next
  case (bib_throws r filtered R U cits st1 e)
  from callCite_fields[OF bib_throws(3)] callMakeBibliography_fields[OF bib_throws(5)]
  show ?thesis by simp
next
  case (bib_absent r filtered R U cits st1 out st2)
  from callCite_fields[OF bib_absent(3)] callMakeBibliography_fields[OF bib_absent(5)]
    setNull_fields[OF bib_absent(7)]
  show ?thesis by (simp add: storeResult_fields)
next
  case (bib_stored r filtered R U cits st1 metadata entries st2)
  from bib_stored(6) obtain d' st3 where s: "st' = storeResult file d' st3"
    "trace st3 = trace st2" "engine st3 = engine st2" "bibCache st3 = bibCache st2"
    by (rule storeBibliography_fields)
  from callCite_fields[OF bib_stored(3)] callMakeBibliography_fields[OF bib_stored(5)] s
  show ?thesis by (simp add: storeResult_fields)
qed

lemma getReferenceList_run:
  assumes "getReferenceList env file content st = (res, st')"
  obtains
    (no_groups) "map (getCitations env) (getCitationSegments env content) = []"
      "res = Inr None" "st' = st"
  | (load_throws) cachedDoc st1 e where
      "map (getCitations env) (getCitationSegments env content) \<noteq> []"
      "readCached file st = (cachedDoc, st1)"
      "selectSource env (getScopedSettings (metadataCache env file)) cachedDoc st1 = (Inl e, st')"
      "res = Inl e"
  | (rendered) cachedDoc st1 src st2 where
      "map (getCitations env) (getCitationSegments env content) \<noteq> []"
      "readCached file st = (cachedDoc, st1)"
      "selectSource env (getScopedSettings (metadataCache env file)) cachedDoc st1 = (Inr src, st2)"
      "renderWithSource env file (map (getCitations env) (getCitationSegments env content))
         (collectKeys (map (getCitations env) (getCitationSegments env content)))
         (getScopedSettings (metadataCache env file)) cachedDoc
         (areSettingsEqual (getScopedSettings (metadataCache env file)) cachedDoc) src st2
       = (res, st')"
proof (cases "map (getCitations env) (getCitationSegments env content) = []")
  case True
  with assms show ?thesis by (intro no_groups) (auto simp: getReferenceList_def)
next
  case False
  obtain cachedDoc st1 where rc: "readCached file st = (cachedDoc, st1)" by force
  obtain r st2 where
    sel: "selectSource env (getScopedSettings (metadataCache env file)) cachedDoc st1 = (r, st2)"
    by force
  note ph = getReferenceList_phases[OF refl False rc sel]
  show ?thesis
  proof (cases r)
    case (Inl e)
    with ph assms False rc sel show ?thesis by (intro load_throws[of cachedDoc st1 e]) auto
  next
    case (Inr src)
    with ph assms False rc sel show ?thesis by (intro rendered[of cachedDoc st1 src st2]) auto
  qed
qed

lemma no_dispatch_in_loads:
  "list_all is_load_event evs \<Longrightarrow> Dispatch f d \<notin> set evs"
  by (auto simp: list_all_iff)

text \<open>The events of a pass that got as far as rendering: those of loading, then the rest.\<close>

lemma rendered_events:
  assumes "readCached file st = (cachedDoc, st1)"
    and "selectSource env scoped cachedDoc st1 = (r, st2)"
    and "renderWithSource env file processed citeKeys scoped cachedDoc eq src st2 = (res, st')"
  shows "pass_events st st' = pass_events st st2 @ pass_events st2 st'"
    and "list_all is_load_event (pass_events st st2)"
    and "engine st' = engine st2" and "engine st2 = engine st"
    and "bibCache st' = bibCache st2" and "bibCache st2 = bibCache st"
proof -
  from selectSource_loads[OF assms(2)] readCached_fields[OF assms(1)]
  obtain xs where xs: "trace st2 = trace st @ xs" "list_all is_load_event xs"
    and e: "engine st2 = engine st" "bibCache st2 = bibCache st"
    by (auto simp: loads_only_def)
  from renderWithSource_trace[OF assms(3)] obtain ys where ys: "trace st' = trace st2 @ ys"
    and e': "engine st' = engine st2" "bibCache st' = bibCache st2"
    by auto
  from xs ys show "pass_events st st' = pass_events st st2 @ pass_events st2 st'"
    by (simp add: pass_events_def)
  from xs show "list_all is_load_event (pass_events st st2)" by (simp add: pass_events_def)
  from e e' show "engine st' = engine st2" "engine st2 = engine st"
    "bibCache st' = bibCache st2" "bibCache st2 = bibCache st" by simp_all
qed


subsection \<open>Two passes of the worked examples\<close>

lemma smith99_pass:
  "getReferenceList example_env (TFile 0) ''smith99'' ready_manager
     = (Inr (Some (Element 1 ''<div><p/></div>'')),
        ready_manager\<lparr>fileCache := [(TFile 0, smith99_entry)],
                       heap := (heap ready_manager)(0 := [smith99_group]),
                       next_obj := 2,
                       trace := [Cite 0 [smith99_group] (Inr [smith99_cited]),
                                 MakeBibliography 0 (Inr (BibPair \<lparr>bibstart = ''<div>'', bibend = ''</div>'', entry_ids = None\<rparr> [''<p/>''])),
                                 Dispatch (TFile 0) smith99_entry]\<rparr>)"
proof -
  have k: "{x. x = ''smith99'' \<and> x \<noteq> []} = {''smith99''}" by auto
  show ?thesis
    by (simp add: model_defs ready_manager_def smith99_entry_def smith99_cited_def
      smith99_group_def Let_def k)
qed

lemma lee2010_pass:
  "getReferenceList example_env (TFile 2) ''lee2010'' new_manager
     = (Inr None, storeResult (TFile 2) (null_result {''lee2010''} This) new_manager)"
proof -
  have k: "{x. x = ''lee2010'' \<and> x \<noteq> []} = {''lee2010''}" by auto
  show ?thesis by (simp add: model_defs Let_def k)
qed


subsection \<open>The keys of a stored result\<close>

text \<open>
  C2, as stated, fails: the result stored by a pass without an engine has the cited key in
  \<open>keys\<close> and in neither \<open>resolvedKeys\<close> nor \<open>unresolvedKeys\<close>.
\<close>

theorem stored_keys_partition_counterexample:
  "Dispatch (TFile 2) (null_result {''lee2010''} This)
     \<in> set (pass_events new_manager
              (snd (getReferenceList example_env (TFile 2) ''lee2010'' new_manager)))
   \<and> resolvedKeys (null_result {''lee2010''} This) \<union> unresolvedKeys (null_result {''lee2010''} This)
       \<noteq> keys (null_result {''lee2010''} This)"
  by (simp add: lee2010_pass storeResult_fields(1) pass_events_def)
    (simp add: null_result_def)


text \<open>
  C2, amended. Every result that a pass stores (and dispatches) has disjoint
  \<open>resolvedKeys\<close> and \<open>unresolvedKeys\<close>. When its scope has an engine, the two sets
  cover \<open>keys\<close> and hold ids of the document's citations only, and their union is
  \<open>keys\<close> when no citation has an empty id; when its scope has no engine, both sets are
  empty.
\<close>

theorem stored_keys_partition:
  assumes run: "getReferenceList env file content st = (res, st')"
    and ev: "Dispatch f d \<in> set (pass_events st st')"
  shows "f = file \<and> map_of (fileCache st') file = Some d
         \<and> resolvedKeys d \<inter> unresolvedKeys d = {}
         \<and> (source_engine st' (source d) = None
              \<longrightarrow> resolvedKeys d = {} \<and> unresolvedKeys d = {})
         \<and> (source_engine st' (source d) \<noteq> None
              \<longrightarrow> keys d \<subseteq> resolvedKeys d \<union> unresolvedKeys d
                  \<and> resolvedKeys d \<union> unresolvedKeys d
                      \<subseteq> all_ids (map (getCitations env) (getCitationSegments env content))
                  \<and> ([] \<notin> all_ids (map (getCitations env) (getCitationSegments env content))
                       \<longrightarrow> resolvedKeys d \<union> unresolvedKeys d = keys d))"
  using run
proof (cases rule: getReferenceList_run)
  case no_groups
  with ev show ?thesis by (simp add: pass_events_def)
next
  case (load_throws cachedDoc st1 e)
  from selectSource_loads[OF load_throws(3)] readCached_fields(3)[OF load_throws(2)]
  have "list_all is_load_event (pass_events st st')"
    by (auto simp: loads_only_def pass_events_def)
  with ev show ?thesis by (auto dest: no_dispatch_in_loads)
next
  case (rendered cachedDoc st1 src st2)
  let ?processed = "map (getCitations env) (getCitationSegments env content)"
  note E = rendered_events[OF rendered(2,3,4)]
  from ev E(1,2) have ev2: "Dispatch f d \<in> set (pass_events st2 st')"
    by (auto dest: no_dispatch_in_loads)
  note D = renderWithSource_dispatch[OF rendered(4) ev2]
  from D have src: "source d = src" and k: "keys d = collectKeys ?processed" by simp_all
  from E(3) have se: "source_engine st' src = source_engine st2 src"
    by (simp add: source_engine_def split: Source.splits)
  show ?thesis
  proof (cases "source_engine st2 src")
    case None
    with D se src show ?thesis by (simp add: null_result_def)
  next
    case (Some r)
    with D obtain filtered where
      p: "partitionKeys (source_bibCache st2 src) ?processed (collectKeys ?processed)
          = (filtered, resolvedKeys d, unresolvedKeys d)"
      by auto
    note P = partitionKeys_sets[OF p]
    have "resolvedKeys d \<union> unresolvedKeys d = keys d" if "[] \<notin> all_ids ?processed"
      using that P(3,4) k by (auto simp: collectKeys_ids)
    with D P(2,3,4) k se src Some show ?thesis by simp
  qed
qed

theorem stored_keys_partition_witness:
  "Dispatch (TFile 0) smith99_entry
     \<in> set (pass_events ready_manager
              (snd (getReferenceList example_env (TFile 0) ''smith99'' ready_manager)))
   \<and> source_engine ready_manager (source smith99_entry) \<noteq> None
   \<and> resolvedKeys smith99_entry \<union> unresolvedKeys smith99_entry = keys smith99_entry
   \<and> Dispatch (TFile 2) (null_result {''lee2010''} This)
     \<in> set (pass_events new_manager
              (snd (getReferenceList example_env (TFile 2) ''lee2010'' new_manager)))
   \<and> source_engine new_manager (source (null_result {''lee2010''} This)) = None
   \<and> resolvedKeys (null_result {''lee2010''} This) = {}"
  using stored_keys_partition [of example_env "TFile 0" "''smith99''" ready_manager
      "fst (getReferenceList example_env (TFile 0) ''smith99'' ready_manager)"
      "snd (getReferenceList example_env (TFile 0) ''smith99'' ready_manager)"
      "TFile 0" smith99_entry]
    stored_keys_partition [of example_env "TFile 2" "''lee2010''" new_manager
      "fst (getReferenceList example_env (TFile 2) ''lee2010'' new_manager)"
      "snd (getReferenceList example_env (TFile 2) ''lee2010'' new_manager)"
      "TFile 2" "null_result {''lee2010''} This"]
  by (simp add: smith99_pass lee2010_pass storeResult_fields(1) pass_events_def)
    (simp add: smith99_entry_def null_result_def source_engine_def ready_manager_def
      new_manager_def)

subsection \<open>The groups that are rendered\<close>

lemma partitionKeys_filtered:
  "partitionKeys bc processed citeKeys = (filtered, R, U) \<Longrightarrow>
     filtered = filter (resolves bc) processed"
  unfolding partitionKeys_def by (drule filterResolved_sets) simp

text \<open>With an engine, rendering starts with one call of \<open>cite\<close> and calls it no more.\<close>

lemma renderWithSource_cite_first:
  assumes run: "renderWithSource env file processed citeKeys scoped cachedDoc eq src st = (res, st')"
    and eng: "source_engine st src = Some r"
  shows "\<exists>out rest. pass_events st st'
           = Cite r (filter (resolves (source_bibCache st src)) processed) out # rest
         \<and> (\<forall>r' gs out'. Cite r' gs out' \<notin> set rest)"
  using run
proof (cases rule: renderWithSource_outcome)
  case no_engine
  with eng show ?thesis by simp
next
  case (cite_throws r' filtered R U e)
  from callCite_fields(1)[OF cite_throws(3)] partitionKeys_filtered[OF cite_throws(2)]
    cite_throws(1) eng
  show ?thesis by (simp add: pass_events_def)
next
  case (returned_cached r' filtered R U cits d')
  from callCite_fields(1)[OF returned_cached(3)] partitionKeys_filtered[OF returned_cached(2)]
    returned_cached(1) eng
  show ?thesis by (simp add: pass_events_def)
next
  case (bib_throws r' filtered R U cits st1 e)
  from callCite_fields(1)[OF bib_throws(3)] callMakeBibliography_fields(1)[OF bib_throws(5)]
    partitionKeys_filtered[OF bib_throws(2)] bib_throws(1) eng
  show ?thesis by (simp add: pass_events_def)
next
  case (bib_absent r' filtered R U cits st1 out st2)
  from callCite_fields(1)[OF bib_absent(3)] callMakeBibliography_fields(1)[OF bib_absent(5)]
    setNull_fields[OF bib_absent(7)] partitionKeys_filtered[OF bib_absent(2)] bib_absent(1) eng
  show ?thesis by (simp add: pass_events_def storeResult_fields(1))
next
  case (bib_stored r' filtered R U cits st1 metadata entries st2)
  from bib_stored(6) obtain d' st3 where s: "st' = storeResult file d' st3"
    "trace st3 = trace st2"
    by (rule storeBibliography_fields)
  from callCite_fields(1)[OF bib_stored(3)] callMakeBibliography_fields(1)[OF bib_stored(5)]
    s partitionKeys_filtered[OF bib_stored(2)] bib_stored(1) eng
  show ?thesis by (simp add: pass_events_def storeResult_fields(1))
qed

lemma no_cite_in_loads:
  "list_all is_load_event evs \<Longrightarrow> Cite r gs out \<notin> set evs"
  by (auto simp: list_all_iff)

lemma mixed_processed:
  "map (getCitations example_env) (getCitationSegments example_env ''smith99;doe2000,smith99'')
     = [smith99_group, doe2000_group]"
  by (simp add: example_env_def smith99_group_def doe2000_group_def key_segment_def)

lemma mixed_pass:
  "getReferenceList example_env (TFile 3) ''smith99;doe2000,smith99'' ready_manager
     = (Inr (Some (Element 1 ''<div><p/></div>'')),
        ready_manager\<lparr>fileCache := [(TFile 3, mixed_entry)],
                       heap := (heap ready_manager)(0 := [smith99_group]),
                       next_obj := 2,
                       trace := [Cite 0 [smith99_group] (Inr [smith99_cited]),
                                 MakeBibliography 0
                                   (Inr (BibPair \<lparr>bibstart = ''<div>'', bibend = ''</div>'',
                                                  entry_ids = None\<rparr> [''<p/>''])),
                                 Dispatch (TFile 3) mixed_entry]\<rparr>)"
  by (simp add: model_defs ready_manager_def mixed_entry_def smith99_cited_def
      smith99_group_def Let_def) auto


lemma cited_manager_pass:
  "snd (getReferenceList example_env (TFile 0) ''smith99'' ready_manager) = cited_manager"
  by (simp add: smith99_pass cited_manager_def div_metadata_def)

lemma mixed_partition:
  "partitionKeys (bibCache ready_manager) [smith99_group, doe2000_group]
     (collectKeys [smith99_group, doe2000_group])
     = ([smith99_group], {''smith99''}, {''doe2000''})"
  by (auto simp: partitionKeys_def collectKeys_def ready_manager_def smith99_group_def
      doe2000_group_def)

lemma mixed_again:
  "getReferenceList example_env (TFile 0) ''smith99;doe2000,smith99'' cited_manager
     = (Inr (Some (Element 1 ''<div><p/></div>'')),
        cited_manager\<lparr>trace := trace cited_manager
                         @ [Cite 0 [smith99_group] (Inr [smith99_cited])]\<rparr>)"
  by (auto simp: model_defs cited_manager_def ready_manager_def smith99_entry_def
      smith99_cited_def smith99_group_def div_metadata_def Let_def)

lemma ready_chosen:
  "readCached (TFile 3) ready_manager = (None, ready_manager)"
  "selectSource example_env (getScopedSettings (metadataCache example_env (TFile 3))) None
     ready_manager = (Inr This, ready_manager)"
  "source_engine ready_manager This = Some 0"
  "source_bibCache ready_manager This = bibCache ready_manager"
  by (simp_all add: readCached_def lru_has_def selectSource_def loadScopedEngine_def
      getScopedSettings_def example_env_def ready_manager_def new_manager_def
      source_engine_def source_bibCache_def)

lemma cited_chosen:
  "readCached (TFile 0) cited_manager = (Some smith99_entry, cited_manager)"
  "selectSource example_env (getScopedSettings (metadataCache example_env (TFile 0)))
     (Some smith99_entry) cited_manager = (Inr This, cited_manager)"
  "source_engine cited_manager This = Some 0"
  "source_bibCache cited_manager This = bibCache ready_manager"
  by (simp_all add: readCached_def lru_has_def lru_get_def selectSource_def
      areSettingsEqual_def opt_field_def getScopedSettings_def example_env_def
      cited_manager_def ready_manager_def new_manager_def smith99_entry_def
      source_engine_def source_bibCache_def)

lemma two_groups: "[smith99_group, doe2000_group] \<noteq> []"
  by simp


text \<open>
  C6. In a pass whose scope has an engine, lines 499 to 517 compute, from the bibliography
  lookup of the scope, the groups of the document and its keys, the groups to render and
  the sets \<open>resolvedKeys\<close> and \<open>unresolvedKeys\<close> (\<open>partitionKeys\<close> at these
  arguments). The groups to render are the groups all of whose citations have their id in
  the lookup, in the order of the document: a group is among them exactly when it is a
  group of the document and each of its ids is in the lookup. \<open>cite\<close> is called once, on
  the engine of the scope, with these groups. Each id of each group, rendered or not, is
  in one of the two sets (an id being a non-empty string: a citation without one has none
  to record), which are disjoint, the first within the lookup and the second outside it.
  This holds of every such pass, also of one that returns the cached bibliography and
  stores nothing; a result that the pass stores holds these two sets.
\<close>

theorem groups_passed_to_rendering:
  assumes parsed: "map (getCitations env) (getCitationSegments env content) = processed"
    and groups: "processed \<noteq> []"
    and cached: "readCached file st = (cachedDoc, st1)"
    and chosen: "selectSource env (getScopedSettings (metadataCache env file)) cachedDoc st1
                   = (Inr src, st2)"
    and eng: "source_engine st2 src = Some r"
    and run: "getReferenceList env file content st = (res, st')"
    and sets: "partitionKeys (source_bibCache st2 src) processed (collectKeys processed)
                 = (filtered, R, U)"
  shows "filtered = filter (resolves (source_bibCache st2 src)) processed
         \<and> (\<exists>out. Cite r filtered out \<in> set (pass_events st st'))
         \<and> (\<forall>r' gs out. Cite r' gs out \<in> set (pass_events st st')
               \<longrightarrow> r' = r \<and> gs = filtered
                   \<and> (\<forall>g. g \<in> set gs \<longleftrightarrow>
                          g \<in> set processed
                          \<and> (\<forall>c \<in> set (g_citations g). c_id c \<in> dom (source_bibCache st2 src))))
         \<and> (\<forall>g \<in> set processed. \<forall>c \<in> set (g_citations g).
               c_id c \<noteq> [] \<longrightarrow> c_id c \<in> R \<union> U)
         \<and> R \<inter> U = {} \<and> R \<subseteq> dom (source_bibCache st2 src)
         \<and> U \<inter> dom (source_bibCache st2 src) = {}
         \<and> (\<forall>f d. Dispatch f d \<in> set (pass_events st st')
               \<longrightarrow> resolvedKeys d = R \<and> unresolvedKeys d = U
                   \<and> (\<forall>g \<in> set processed. \<forall>c \<in> set (g_citations g).
                        c_id c \<noteq> [] \<longrightarrow> c_id c \<in> resolvedKeys d \<union> unresolvedKeys d))"
proof -
  let ?scoped = "getScopedSettings (metadataCache env file)"
  let ?bc = "source_bibCache st2 src"
  have r: "renderWithSource env file processed (collectKeys processed) ?scoped cachedDoc
             (areSettingsEqual ?scoped cachedDoc) src st2 = (res, st')"
    using getReferenceList_phases[OF parsed groups cached chosen] run by simp
  note E = rendered_events[OF cached chosen r]
  note P = partitionKeys_sets[OF sets]
  have f: "filtered = filter (resolves ?bc) processed" by (rule P(1))
  from renderWithSource_cite_first[OF r eng] f obtain out rest where
    ev: "pass_events st2 st' = Cite r filtered out # rest"
    and rest: "\<forall>r' gs out'. Cite r' gs out' \<notin> set rest"
    by blast
  have one: "\<exists>out. Cite r filtered out \<in> set (pass_events st st')"
    using E(1) ev by auto
  have mem: "(g \<in> set filtered) \<longleftrightarrow>
        (g \<in> set processed \<and> (\<forall>c \<in> set (g_citations g). c_id c \<in> dom ?bc))" for g
    unfolding f by (auto simp: resolves_def)
  have only: "r' = r \<and> gs = filtered"
    if "Cite r' gs out' \<in> set (pass_events st st')" for r' gs out'
  proof -
    from that E(1) no_cite_in_loads[OF E(2)]
    have "Cite r' gs out' \<in> set (pass_events st2 st')" by auto
    with ev rest show ?thesis by auto
  qed
  have part: "c_id c \<in> R \<union> U"
    if g: "g \<in> set processed" and c: "c \<in> set (g_citations g)" and nonempty: "c_id c \<noteq> []"
    for g c
  proof -
    from g c nonempty have "c_id c \<in> collectKeys processed"
      by (auto simp: collectKeys_ids all_ids_def)
    with P(3) show ?thesis by auto
  qed
  have stored: "resolvedKeys d = R \<and> unresolvedKeys d = U"
    if d: "Dispatch f d \<in> set (pass_events st st')" for f d
  proof -
    from d E(1) no_dispatch_in_loads[OF E(2)]
    have "Dispatch f d \<in> set (pass_events st2 st')" by auto
    from renderWithSource_dispatch[OF r this] eng sets show ?thesis by auto
  qed
  show ?thesis
  proof (intro conjI allI impI ballI)
    show "filtered = filter (resolves ?bc) processed" by (rule f)
    show "\<exists>out. Cite r filtered out \<in> set (pass_events st st')" by (rule one)
    show "R \<inter> U = {}" by (rule P(2))
    show "R \<subseteq> dom ?bc" by (rule P(5))
    show "U \<inter> dom ?bc = {}" by (rule P(6))
  next
    fix r' gs out' assume "Cite r' gs out' \<in> set (pass_events st st')"
    from only[OF this] show "r' = r" "gs = filtered" by simp_all
    fix g from \<open>gs = filtered\<close> mem[of g]
    show "g \<in> set gs \<longleftrightarrow>
            g \<in> set processed \<and> (\<forall>c \<in> set (g_citations g). c_id c \<in> dom ?bc)"
      by simp
  next
    fix g c assume "g \<in> set processed" "c \<in> set (g_citations g)" "c_id c \<noteq> []"
    then show "c_id c \<in> R \<union> U" by (rule part)
  next
    fix f d assume d: "Dispatch f d \<in> set (pass_events st st')"
    from stored[OF d] show "resolvedKeys d = R" "unresolvedKeys d = U" by simp_all
    fix g c assume "g \<in> set processed" "c \<in> set (g_citations g)" "c_id c \<noteq> []"
    with part stored[OF d] show "c_id c \<in> resolvedKeys d \<union> unresolvedKeys d" by simp
  qed
qed

theorem groups_passed_to_rendering_witness:
  "snd (getReferenceList example_env (TFile 0) ''smith99'' ready_manager) = cited_manager
   \<and> source_engine ready_manager This = Some 0
   \<and> partitionKeys (bibCache ready_manager) [smith99_group, doe2000_group]
        (collectKeys [smith99_group, doe2000_group])
       = ([smith99_group], {''smith99''}, {''doe2000''})
   \<and> [smith99_group] = filter (resolves (bibCache ready_manager)) [smith99_group, doe2000_group]
   \<and> pass_events ready_manager
        (snd (getReferenceList example_env (TFile 3) ''smith99;doe2000,smith99'' ready_manager))
       = [Cite 0 [smith99_group] (Inr [smith99_cited]),
          MakeBibliography 0 (Inr (BibPair div_metadata [''<p/>''])),
          Dispatch (TFile 3) mixed_entry]
   \<and> resolvedKeys mixed_entry = {''smith99''} \<and> unresolvedKeys mixed_entry = {''doe2000''}
   \<and> source_engine cited_manager This = Some 0
   \<and> pass_events cited_manager
        (snd (getReferenceList example_env (TFile 0) ''smith99;doe2000,smith99'' cited_manager))
       = [Cite 0 [smith99_group] (Inr [smith99_cited])]
   \<and> ''doe2000'' \<in> {''smith99''} \<union> {''doe2000''}"
proof -
  have t: "trace ready_manager = []" by (simp add: ready_manager_def new_manager_def)
  have stored: "Dispatch (TFile 3) mixed_entry
      \<in> set (pass_events ready_manager
               (snd (getReferenceList example_env (TFile 3) ''smith99;doe2000,smith99''
                       ready_manager)))"
    by (simp add: mixed_pass pass_events_def t)
  note A = groups_passed_to_rendering [OF mixed_processed two_groups ready_chosen(1,2,3)
      surjective_pairing mixed_partition[folded ready_chosen(4)]]
  note B = groups_passed_to_rendering [OF mixed_processed two_groups cited_chosen(1,2,3)
      surjective_pairing mixed_partition[folded cited_chosen(4)]]
  note a = A[THEN conjunct1]
  note A8 = A[THEN conjunct2, THEN conjunct2, THEN conjunct2, THEN conjunct2, THEN conjunct2,
      THEN conjunct2, THEN conjunct2, rule_format, OF stored]
  note d = A8[THEN conjunct1] A8[THEN conjunct2, THEN conjunct1]
  have g: "doe2000_group \<in> set [smith99_group, doe2000_group]"
    "\<lparr>c_id = ''doe2000'', c_rest = []\<rparr> \<in> set (g_citations doe2000_group)"
    "c_id \<lparr>c_id = ''doe2000'', c_rest = []\<rparr> \<noteq> []"
    by (simp_all add: doe2000_group_def)
  from B[THEN conjunct2, THEN conjunct2, THEN conjunct2, THEN conjunct1, rule_format, OF g]
  have b: "''doe2000'' \<in> {''smith99''} \<union> {''doe2000''}" by simp
  have ev: "pass_events ready_manager
        (snd (getReferenceList example_env (TFile 3) ''smith99;doe2000,smith99'' ready_manager))
       = [Cite 0 [smith99_group] (Inr [smith99_cited]),
          MakeBibliography 0 (Inr (BibPair div_metadata [''<p/>''])),
          Dispatch (TFile 3) mixed_entry]"
    by (simp add: mixed_pass pass_events_def t div_metadata_def)
  have ev2: "pass_events cited_manager
        (snd (getReferenceList example_env (TFile 0) ''smith99;doe2000,smith99'' cited_manager))
       = [Cite 0 [smith99_group] (Inr [smith99_cited])]"
    by (simp add: mixed_again pass_events_def)
  show ?thesis
    using cited_manager_pass a[unfolded ready_chosen(4)] d b ev ev2 ready_chosen(3)
      cited_chosen(3) mixed_partition
    by (intro conjI) assumption+
qed

subsection \<open>A bibliography without entries\<close>

lemma no_bibliography_in_loads:
  "list_all is_load_event evs \<Longrightarrow> MakeBibliography r out \<notin> set evs"
  by (auto simp: list_all_iff)

text \<open>What follows a call of \<open>makeBibliography\<close> that returned.\<close>

lemma renderWithSource_made:
  assumes run: "renderWithSource env file processed citeKeys scoped cachedDoc eq src st = (res, st')"
    and made: "MakeBibliography r (Inr out) \<in> set (pass_events st st')"
  shows "\<exists>filtered cits d.
           Cite r filtered (Inr cits) \<in> set (pass_events st st')
           \<and> Dispatch file d \<in> set (pass_events st st')
           \<and> map_of (fileCache st') file = Some d \<and> res = Inr (bib d)
           \<and> (case out of
                 BibPair metadata entries \<Rightarrow>
                   citations d = cits \<and> settings d = scoped \<and> (entries = [] \<longrightarrow> bib d = None)
               | _ \<Rightarrow> bib d = None \<and> citations d = [] \<and> settings d = None)"
  using run
proof (cases rule: renderWithSource_outcome)
  case no_engine
  from setNull_fields[OF no_engine(2)] made show ?thesis
    by (simp add: pass_events_def storeResult_fields(1))
next
  case (cite_throws r' filtered R U e)
  from callCite_fields(1)[OF cite_throws(3)] made show ?thesis
    by (simp add: pass_events_def)
next
  case (returned_cached r' filtered R U cits d')
  from callCite_fields(1)[OF returned_cached(3)] made show ?thesis
    by (simp add: pass_events_def)
next
  case (bib_throws r' filtered R U cits st1 e)
  from callCite_fields(1)[OF bib_throws(3)] callMakeBibliography_fields(1)[OF bib_throws(5)] made
  show ?thesis by (simp add: pass_events_def)
next
  case (bib_absent r' filtered R U cits st1 out' st2)
  note n = setNull_fields[OF bib_absent(7)]
  from callCite_fields(1)[OF bib_absent(3)] callMakeBibliography_fields(1)[OF bib_absent(5)] n
  have ev: "pass_events st st' = [Cite r' filtered (Inr cits), MakeBibliography r' (Inr out'),
      Dispatch file \<lparr>keys = citeKeys, resolvedKeys = R, unresolvedKeys = U,
                     bib = None, citations = [], citeBibMap = Map.empty, settings = None,
                     source = src\<rparr>]"
    by (simp add: pass_events_def storeResult_fields(1))
  with made have "r' = r" "out' = out" by auto
  with ev n bib_absent(6) show ?thesis
    by (auto simp: storeResult_fields(3))
next
  case (bib_stored r' filtered R U cits st1 metadata entries st2)
  from bib_stored(6) obtain d st3 where s: "st' = storeResult file d st3" "res = Inr (bib d)"
    "citations d = cits" "settings d = scoped" "entries = [] \<longrightarrow> bib d = None"
    "trace st3 = trace st2"
    by (rule storeBibliography_fields)
  from callCite_fields(1)[OF bib_stored(3)] callMakeBibliography_fields(1)[OF bib_stored(5)] s
  have ev: "pass_events st st' = [Cite r' filtered (Inr cits),
      MakeBibliography r' (Inr (BibPair metadata entries)), Dispatch file d]"
    by (simp add: pass_events_def storeResult_fields(1))
  with made have "r' = r" "out = BibPair metadata entries" by auto
  with ev s show ?thesis
    by (auto simp: storeResult_fields(3))
qed

lemma ready_manager_trace: "trace ready_manager = []"
  by (simp add: ready_manager_def new_manager_def)

lemma no_entries_pass:
  "getReferenceList no_entries_env (TFile 4) ''smith99'' ready_manager
     = (Inr None,
        ready_manager\<lparr>fileCache := [(TFile 4, unlisted_entry)],
                       heap := (heap ready_manager)(0 := [smith99_group]),
                       trace := [Cite 0 [smith99_group] (Inr [smith99_cited]),
                                 MakeBibliography 0 (Inr (BibPair div_metadata [])),
                                 Dispatch (TFile 4) unlisted_entry]\<rparr>)"
  by (auto simp: model_defs no_entries_env_def ready_manager_def unlisted_entry_def
      smith99_cited_def smith99_group_def div_metadata_def Let_def)

lemma no_bibliography_pass:
  "getReferenceList no_bibliography_env (TFile 5) ''smith99'' ready_manager
     = (Inr None,
        ready_manager\<lparr>fileCache := [(TFile 5, discarded_entry)],
                       heap := (heap ready_manager)(0 := [smith99_group]),
                       trace := [Cite 0 [smith99_group] (Inr [smith99_cited]),
                                 MakeBibliography 0 (Inr BibNone),
                                 Dispatch (TFile 5) discarded_entry]\<rparr>)"
  by (auto simp: model_defs no_bibliography_env_def ready_manager_def discarded_entry_def
      smith99_cited_def smith99_group_def Let_def)


text \<open>
  C7, as stated, fails: when \<open>makeBibliography\<close> returns its pair with an empty list of
  entries, the test \<open>!bib?.length\<close> sees an array of length 2 and the pass goes on; the
  result it stores has no bibliography but keeps the rendered citations.
\<close>

theorem empty_bibliography_result_counterexample:
  "Cite 0 [smith99_group] (Inr [smith99_cited])
     \<in> set (pass_events ready_manager
              (snd (getReferenceList no_entries_env (TFile 4) ''smith99'' ready_manager)))
   \<and> MakeBibliography 0 (Inr (BibPair div_metadata []))
     \<in> set (pass_events ready_manager
              (snd (getReferenceList no_entries_env (TFile 4) ''smith99'' ready_manager)))
   \<and> map_of (fileCache (snd (getReferenceList no_entries_env (TFile 4) ''smith99''
                                ready_manager))) (TFile 4) = Some unlisted_entry
   \<and> citations unlisted_entry = [smith99_cited]
   \<and> citations unlisted_entry \<noteq> []"
  by (simp add: no_entries_pass pass_events_def ready_manager_trace unlisted_entry_def)


text \<open>
  C7, amended. When \<open>makeBibliography\<close> returns nothing (\<open>false\<close>, \<open>undefined\<close>) or an
  array of length 0, the pass returns \<open>null\<close> and stores and dispatches a result with no
  bibliography, no citations and no settings, whatever citations \<open>cite\<close> rendered. When
  it returns the pair of metadata and an empty list of entries, the pass returns \<open>null\<close>
  and the result it stores has no bibliography, and holds the rendered citations and the
  settings of the document.
\<close>

theorem empty_bibliography_result:
  assumes run: "getReferenceList env file content st = (res, st')"
    and made: "MakeBibliography r (Inr out) \<in> set (pass_events st st')"
  shows "\<exists>gs cits d.
           Cite r gs (Inr cits) \<in> set (pass_events st st')
           \<and> Dispatch file d \<in> set (pass_events st st')
           \<and> map_of (fileCache st') file = Some d
           \<and> (out = BibNone \<or> out = BibEmpty
                \<longrightarrow> res = Inr None \<and> bib d = None \<and> citations d = [] \<and> settings d = None)
           \<and> (\<forall>metadata. out = BibPair metadata []
                \<longrightarrow> res = Inr None \<and> bib d = None \<and> citations d = cits
                    \<and> settings d = getScopedSettings (metadataCache env file))"
  using run
proof (cases rule: getReferenceList_run)
  case no_groups
  with made show ?thesis by (simp add: pass_events_def)
next
  case (load_throws cachedDoc st1 e)
  from selectSource_loads[OF load_throws(3)] readCached_fields(3)[OF load_throws(2)]
  have "list_all is_load_event (pass_events st st')"
    by (auto simp: loads_only_def pass_events_def)
  with made show ?thesis by (auto dest: no_bibliography_in_loads)
next
  case (rendered cachedDoc st1 src st2)
  note E = rendered_events[OF rendered(2,3,4)]
  from made E(1,2) have "MakeBibliography r (Inr out) \<in> set (pass_events st2 st')"
    by (auto dest: no_bibliography_in_loads)
  from renderWithSource_made[OF rendered(4) this] obtain gs cits d where
    d: "Cite r gs (Inr cits) \<in> set (pass_events st2 st')"
      "Dispatch file d \<in> set (pass_events st2 st')"
      "map_of (fileCache st') file = Some d" "res = Inr (bib d)"
      "case out of
         BibPair metadata entries \<Rightarrow>
           citations d = cits \<and> settings d = getScopedSettings (metadataCache env file)
           \<and> (entries = [] \<longrightarrow> bib d = None)
       | _ \<Rightarrow> bib d = None \<and> citations d = [] \<and> settings d = None"
    by blast
  from d(1,2) E(1) have "Cite r gs (Inr cits) \<in> set (pass_events st st')"
    "Dispatch file d \<in> set (pass_events st st')" by auto
  with d(3,4,5) show ?thesis
    by (intro exI[of _ gs] exI[of _ cits] exI[of _ d]) (auto split: BibOutput.splits)
qed

theorem empty_bibliography_result_witness:
  "MakeBibliography 0 (Inr BibNone)
     \<in> set (pass_events ready_manager
              (snd (getReferenceList no_bibliography_env (TFile 5) ''smith99'' ready_manager)))
   \<and> map_of (fileCache (snd (getReferenceList no_bibliography_env (TFile 5) ''smith99''
                                ready_manager))) (TFile 5) = Some discarded_entry
   \<and> citations discarded_entry = []
   \<and> MakeBibliography 0 (Inr (BibPair div_metadata []))
     \<in> set (pass_events ready_manager
              (snd (getReferenceList no_entries_env (TFile 4) ''smith99'' ready_manager)))
   \<and> map_of (fileCache (snd (getReferenceList no_entries_env (TFile 4) ''smith99''
                                ready_manager))) (TFile 4) = Some unlisted_entry
   \<and> bib unlisted_entry = None"
  using empty_bibliography_result [of no_bibliography_env "TFile 5" "''smith99''" ready_manager
      "fst (getReferenceList no_bibliography_env (TFile 5) ''smith99'' ready_manager)"
      "snd (getReferenceList no_bibliography_env (TFile 5) ''smith99'' ready_manager)"
      0 BibNone]
    empty_bibliography_result [of no_entries_env "TFile 4" "''smith99''" ready_manager
      "fst (getReferenceList no_entries_env (TFile 4) ''smith99'' ready_manager)"
      "snd (getReferenceList no_entries_env (TFile 4) ''smith99'' ready_manager)"
      0 "BibPair div_metadata []"]
  by (simp add: no_entries_pass no_bibliography_pass pass_events_def ready_manager_trace
      unlisted_entry_def discarded_entry_def)

subsection \<open>The file cache over time\<close>

lemma lru_get_entries:
  "set (snd (lru_get c k)) \<subseteq> set c" "length (snd (lru_get c k)) \<le> length c"
proof -
  show "set (snd (lru_get c k)) \<subseteq> set c"
    by (auto simp: lru_get_def split: option.splits dest: map_of_SomeD)
  show "length (snd (lru_get c k)) \<le> length c"
  proof (cases "map_of c k")
    case None
    then show ?thesis by (simp add: lru_get_def)
  next
    case (Some v)
    then have "(k, v) \<in> set c" by (rule map_of_SomeD)
    then have "length (filter (\<lambda>p. fst p \<noteq> k) c) < length c"
      by (intro length_filter_less[of "(k, v)"]) auto
    with Some show ?thesis by (simp add: lru_get_def)
  qed
qed

lemma lru_set_entries:
  "set (lru_set c k v) \<subseteq> insert (k, v) (set c)" "length (lru_set c k v) \<le> max_files"
  by (auto simp: lru_set_def dest!: in_set_takeD)

lemma touches_bounded: "touches c c' P \<Longrightarrow> length c \<le> max_files \<Longrightarrow> length c' \<le> max_files"
  using lru_get_entries(2) lru_set_entries(2)
  by (fastforce simp: touches_def intro: order_trans)

lemma touches_entries:
  assumes "touches c c' P" and "\<forall>(f, d) \<in> set c. P d"
  shows "\<forall>(f, d) \<in> set c'. P d"
proof -
  have "set c' \<subseteq> set c \<or> (\<exists>k d. set c' \<subseteq> insert (k, d) (set c) \<and> P d)"
    using assms(1) lru_get_entries(1) lru_set_entries(1)
    unfolding touches_def
    by (metis insert_mono order_refl subset_trans)
  with assms(2) show ?thesis by auto
qed

lemma touches_same: "touches c c P"
  by (simp add: touches_def)

lemma touches_get: "lru_get c k = (x, y) \<Longrightarrow> touches c y P"
  unfolding touches_def by (metis snd_conv)

lemma readCached_fileCache:
  "readCached file st = (cachedDoc, st1) \<Longrightarrow> fileCache st1 = snd (lru_get (fileCache st) file)"
  by (rule readCached_fields(2))

lemma renderWithSource_fileCache:
  assumes "renderWithSource env file processed citeKeys scoped cachedDoc eq src st = (res, st')"
  shows "fileCache st' = fileCache st
         \<or> (\<exists>d. fileCache st' = lru_set (fileCache st) file d
                \<and> (settings d = None \<or> settings d = scoped))"
  using assms
proof (cases rule: renderWithSource_outcome)
  case no_engine
  from setNull_fields[OF no_engine(2)] show ?thesis by (auto simp: storeResult_fields(2))
next
  case (cite_throws r filtered R U e)
  from callCite_fields[OF cite_throws(3)] show ?thesis by simp
next
  case (returned_cached r filtered R U cits d')
  from callCite_fields[OF returned_cached(3)] show ?thesis by simp
next
  case (bib_throws r filtered R U cits st1 e)
  from callCite_fields[OF bib_throws(3)] callMakeBibliography_fields[OF bib_throws(5)]
  show ?thesis by simp
next
  case (bib_absent r filtered R U cits st1 out st2)
  from callCite_fields(2)[OF bib_absent(3)] callMakeBibliography_fields(2)[OF bib_absent(5)]
    setNull_fields[OF bib_absent(7)]
  show ?thesis by (auto simp: storeResult_fields(2))
next
  case (bib_stored r filtered R U cits st1 metadata entries st2)
  from bib_stored(6) obtain d st3 where s: "st' = storeResult file d st3"
    "settings d = scoped" "fileCache st3 = fileCache st2"
    by (rule storeBibliography_fields)
  from callCite_fields(2)[OF bib_stored(3)] callMakeBibliography_fields(2)[OF bib_stored(5)] s
  show ?thesis by (auto simp: storeResult_fields(2))
qed

lemma getScopedSettings_wf: "wf_settings (getScopedSettings metadata)"
  by (auto simp: getScopedSettings_def wf_settings_def Let_def split: option.splits)

lemma getReferenceList_touches:
  "touches (fileCache st) (fileCache (snd (getReferenceList env file content st)))
     (\<lambda>d. wf_settings (settings d))"
proof -
  obtain res st' where run: "getReferenceList env file content st = (res, st')" by force
  from run have "touches (fileCache st) (fileCache st') (\<lambda>d. wf_settings (settings d))"
  proof (cases rule: getReferenceList_run)
    case no_groups
    then show ?thesis by (simp add: touches_def)
  next
    case (load_throws cachedDoc st1 e)
    from selectSource_loads[OF load_throws(3)] readCached_fileCache[OF load_throws(2)]
    show ?thesis by (auto simp: loads_only_def touches_def)
  next
    case (rendered cachedDoc st1 src st2)
    from selectSource_loads[OF rendered(3)] readCached_fileCache[OF rendered(2)]
    have "fileCache st2 = snd (lru_get (fileCache st) file)" by (simp add: loads_only_def)
    with renderWithSource_fileCache[OF rendered(4)] getScopedSettings_wf
    show ?thesis unfolding touches_def
      by (metis wf_settings_def option.simps(4))
  qed
  with run show ?thesis by simp
qed

lemma cachedForPath_touches:
  "touches (fileCache st) (fileCache (snd (cachedForPath env filePath st))) P"
  by (auto simp: cachedForPath_def touches_same split: option.splits prod.splits
      intro: touches_get)

lemma queries_touch:
  "touches (fileCache st) (fileCache (snd (getNoteForNoteIndex env file index st))) P"
  "touches (fileCache st) (fileCache (snd (getBibForCiteKey env file key st))) P"
  "touches (fileCache st) (fileCache (snd (getCacheForPath env filePath st))) P"
  "touches (fileCache st) (fileCache (snd (getResolution env filePath key st))) P"
  "touches (fileCache st) (fileCache (snd (getCitationsForSection env filePath a b st))) P"
proof -
  show "touches (fileCache st) (fileCache (snd (getNoteForNoteIndex env file index st))) P"
    by (auto simp: getNoteForNoteIndex_def touches_same Let_def
        split: option.splits prod.splits intro: touches_get)
  show "touches (fileCache st) (fileCache (snd (getBibForCiteKey env file key st))) P"
    by (auto simp: getBibForCiteKey_def touches_same Let_def
        split: option.splits prod.splits intro: touches_get)
  show "touches (fileCache st) (fileCache (snd (getCacheForPath env filePath st))) P"
    by (simp add: getCacheForPath_def cachedForPath_touches)
  show "touches (fileCache st) (fileCache (snd (getResolution env filePath key st))) P"
    using cachedForPath_touches[of st env filePath P]
    by (auto simp: getResolution_def split: option.splits prod.splits)
  show "touches (fileCache st) (fileCache (snd (getCitationsForSection env filePath a b st))) P"
    using cachedForPath_touches[of st env filePath P]
    by (auto simp: getCitationsForSection_def split: option.splits prod.splits)
qed

lemma reachable_invariant:
  "reachable st \<Longrightarrow>
     length (fileCache st) \<le> max_files \<and> (\<forall>(f, d) \<in> set (fileCache st). wf_settings (settings d))"
proof (induction rule: reachable.induct)
  case (new st)
  then show ?case by (simp add: is_new_def)
next
  case (cleared st st')
  then show ?case by (simp add: lru_clear_def)
next
  case (other_fields st st')
  then show ?case by simp
next
  case (reference_list st env f content)
  with touches_bounded[OF getReferenceList_touches] touches_entries[OF getReferenceList_touches]
  show ?case by blast
next
  case (note_for_index st env f index)
  with touches_bounded[OF queries_touch(1)] touches_entries[OF queries_touch(1)]
  show ?case by blast
next
  case (bib_for_key st env f key)
  with touches_bounded[OF queries_touch(2)] touches_entries[OF queries_touch(2)]
  show ?case by blast
next
  case (cache_for_path st env filePath)
  with touches_bounded[OF queries_touch(3)] touches_entries[OF queries_touch(3)]
  show ?case by blast
next
  case (resolution st env filePath key)
  with touches_bounded[OF queries_touch(4)] touches_entries[OF queries_touch(4)]
  show ?case by blast
next
  case (citations_for_section st env filePath lineStart lineEnd)
  with touches_bounded[OF queries_touch(5)] touches_entries[OF queries_touch(5)]
  show ?case by blast
qed

lemma renderWithSource_stores:
  assumes run: "renderWithSource env file processed citeKeys scoped cachedDoc eq src st = (res, st')"
    and ev: "Dispatch f d \<in> set (pass_events st st')"
  shows "fileCache st' = lru_set (fileCache st) file d"
  using run
proof (cases rule: renderWithSource_outcome)
  case no_engine
  from setNull_fields[OF no_engine(2)] ev show ?thesis
    by (auto simp: pass_events_def storeResult_fields(1,2))
next
  case (cite_throws r filtered R U e)
  from callCite_fields(1)[OF cite_throws(3)] ev show ?thesis
    by (simp add: pass_events_def)
next
  case (returned_cached r filtered R U cits d')
  from callCite_fields(1)[OF returned_cached(3)] ev show ?thesis
    by (simp add: pass_events_def)
next
  case (bib_throws r filtered R U cits st1 e)
  from callCite_fields(1)[OF bib_throws(3)] callMakeBibliography_fields(1)[OF bib_throws(5)] ev
  show ?thesis by (simp add: pass_events_def)
next
  case (bib_absent r filtered R U cits st1 out st2)
  from callCite_fields(1,2)[OF bib_absent(3)] callMakeBibliography_fields(1,2)[OF bib_absent(5)]
    setNull_fields[OF bib_absent(7)] ev
  show ?thesis by (auto simp: pass_events_def storeResult_fields(1,2))
next
  case (bib_stored r filtered R U cits st1 metadata entries st2)
  from bib_stored(6) obtain d' st3 where s: "st' = storeResult file d' st3"
    "trace st3 = trace st2" "fileCache st3 = fileCache st2"
    by (rule storeBibliography_fields)
  from callCite_fields(1,2)[OF bib_stored(3)] callMakeBibliography_fields(1,2)[OF bib_stored(5)]
    s ev
  show ?thesis by (auto simp: pass_events_def storeResult_fields(1,2))
qed

lemma getReferenceList_stores:
  assumes run: "getReferenceList env file content st = (res, st')"
    and ev: "Dispatch f d \<in> set (pass_events st st')"
  shows "fileCache st' = lru_set (snd (lru_get (fileCache st) file)) file d"
  using run
proof (cases rule: getReferenceList_run)
  case no_groups
  with ev show ?thesis by (simp add: pass_events_def)
next
  case (load_throws cachedDoc st1 e)
  from selectSource_loads[OF load_throws(3)] readCached_fields(3)[OF load_throws(2)]
  have "list_all is_load_event (pass_events st st')"
    by (auto simp: loads_only_def pass_events_def)
  with ev show ?thesis by (auto dest: no_dispatch_in_loads)
next
  case (rendered cachedDoc st1 src st2)
  note E = rendered_events[OF rendered(2,3,4)]
  from ev E(1,2) have "Dispatch f d \<in> set (pass_events st2 st')"
    by (auto dest: no_dispatch_in_loads)
  from renderWithSource_stores[OF rendered(4) this]
    selectSource_loads[OF rendered(3)] readCached_fileCache[OF rendered(2)]
  show ?thesis by (simp add: loads_only_def)
qed

lemma lru_set_full:
  assumes "\<not> lru_has c k" and "length c = max_files"
  shows "lru_set (snd (lru_get c k)) k v = (k, v) # butlast c"
proof -
  from assms(1) have none: "map_of c k = None" by (simp add: lru_has_def)
  then have "filter (\<lambda>p. fst p \<noteq> k) c = c"
    by (auto simp: filter_id_conv map_of_eq_None_iff image_iff)
  with none assms(2) show ?thesis
    by (simp add: lru_set_def lru_get_def butlast_conv_take max_files_def)
qed

lemma pass_without_engine:
  assumes "engine st = None" and "\<not> lru_has (fileCache st) file"
  shows "getReferenceList example_env file ''smith99'' st
           = (Inr None, storeResult file (null_result {''smith99''} This) st)"
proof -
  have p: "map (getCitations example_env) (getCitationSegments example_env ''smith99'')
             = [smith99_group]"
    by (simp add: example_env_def smith99_group_def key_segment_def)
  have k: "collectKeys [smith99_group] = {''smith99''}"
    by (auto simp: collectKeys_def smith99_group_def)
  have rc: "readCached file st = (None, st)" using assms(2) by (simp add: readCached_def)
  have s: "getScopedSettings (metadataCache example_env file) = None"
    by (simp add: example_env_def getScopedSettings_def)
  have sel: "selectSource example_env None None st = (Inr This, st)"
    by (simp add: selectSource_def loadScopedEngine_def)
  from getReferenceList_phases[OF p _ rc, of "Inr This" st] s sel assms(1) k
  show ?thesis
    by (simp add: renderWithSource_def source_engine_def setNull_def null_result_def)
qed

lemma visited_cache:
  "n \<le> 10 \<Longrightarrow>
     engine (visited n) = None
     \<and> fileCache (visited n) = map (\<lambda>i. (TFile i, null_result {''smith99''} This)) (rev [0..<n])"
proof (induction n)
  case 0
  then show ?case by (simp add: new_manager_def)
next
  case (Suc n)
  then have ih: "engine (visited n) = None"
    "fileCache (visited n) = map (\<lambda>i. (TFile i, null_result {''smith99''} This)) (rev [0..<n])"
    by simp_all
  have "map_of (fileCache (visited n)) (TFile n) = None"
    by (simp add: ih(2) map_of_eq_None_iff image_iff)
  then have no: "\<not> lru_has (fileCache (visited n)) (TFile n)" by (simp add: lru_has_def)
  have "filter (\<lambda>p. fst p \<noteq> TFile n) (fileCache (visited n)) = fileCache (visited n)"
    by (simp add: ih(2) filter_id_conv)
  with pass_without_engine[OF ih(1) no] Suc.prems ih show ?case
    by (simp add: storeResult_def record_event_def lru_set_def max_files_def)
qed

lemma visited_reachable: "reachable (visited n)"
proof (induction n)
  case 0
  show ?case by (rule reachable.new) (simp add: is_new_def new_manager_def)
next
  case (Suc n)
  then show ?case by (simp add: reachable.reference_list)
qed


text \<open>
  C8. In every state the manager can reach, the file cache holds at most 10 documents. When
  it holds 10 and a pass stores a result for a document that is not among them, the cache
  afterwards is the new entry followed by the old entries without the last, which is the
  least recently used one: it holds 10 documents again.
\<close>

theorem fileCache_bounded:
  assumes "reachable st"
  shows "length (fileCache st) \<le> 10
         \<and> (\<not> lru_has (fileCache st) file \<and> length (fileCache st) = 10
              \<and> Dispatch file d
                  \<in> set (pass_events st (snd (getReferenceList env file content st)))
             \<longrightarrow> fileCache (snd (getReferenceList env file content st))
                   = (file, d) # butlast (fileCache st)
                 \<and> length (fileCache (snd (getReferenceList env file content st))) = 10)"
proof -
  from reachable_invariant[OF assms] have len: "length (fileCache st) \<le> 10"
    by (simp add: max_files_def)
  have "fileCache (snd (getReferenceList env file content st)) = (file, d) # butlast (fileCache st)
        \<and> length (fileCache (snd (getReferenceList env file content st))) = 10"
    if "\<not> lru_has (fileCache st) file" "length (fileCache st) = 10"
      "Dispatch file d \<in> set (pass_events st (snd (getReferenceList env file content st)))"
  proof -
    have "getReferenceList env file content st
            = (fst (getReferenceList env file content st),
               snd (getReferenceList env file content st))" by simp
    from getReferenceList_stores[OF this that(3)] lru_set_full[OF that(1)] that(2)
    show ?thesis by (simp add: max_files_def)
  qed
  with len show ?thesis by blast
qed

theorem fileCache_bounded_witness:
  "reachable (visited 10)
   \<and> length (fileCache (visited 10)) = 10
   \<and> map fst (fileCache (visited 10)) = map TFile [9, 8, 7, 6, 5, 4, 3, 2, 1, 0]
   \<and> \<not> lru_has (fileCache (visited 10)) (TFile 10)
   \<and> Dispatch (TFile 10) (null_result {''smith99''} This)
       \<in> set (pass_events (visited 10)
                (snd (getReferenceList example_env (TFile 10) ''smith99'' (visited 10))))
   \<and> map fst (fileCache (snd (getReferenceList example_env (TFile 10) ''smith99'' (visited 10))))
       = map TFile [10, 9, 8, 7, 6, 5, 4, 3, 2, 1]"
proof -
  have c: "engine (visited 10) = None"
    "fileCache (visited 10)
       = map (\<lambda>i. (TFile i, null_result {''smith99''} This)) [9, 8, 7, 6, 5, 4, 3, 2, 1, 0]"
    using visited_cache[of 10] by (simp_all add: upt_rec numeral_eq_Suc)
  have no: "\<not> lru_has (fileCache (visited 10)) (TFile 10)"
    by (simp add: c(2) lru_has_def)
  note p = pass_without_engine[OF c(1) no]
  have ev: "Dispatch (TFile 10) (null_result {''smith99''} This)
       \<in> set (pass_events (visited 10)
                (snd (getReferenceList example_env (TFile 10) ''smith99'' (visited 10))))"
    by (simp add: p storeResult_fields(1) pass_events_def)
  from fileCache_bounded [OF visited_reachable, of 10 "TFile 10"
      "null_result {''smith99''} This" example_env "''smith99''"] no ev c(2)
  show ?thesis
    by (simp add: visited_reachable)
qed


subsection \<open>Notes by index\<close>

text \<open>
  C10 does not hold of the code: \<open>getNoteForNoteIndex\<close> throws when no cached citation
  has the index. Here the document is cached with no citations, as a pass without an engine
  leaves it, and the call for index \<open>1\<close> ends in a \<open>TypeError\<close>.
\<close>

theorem getNoteForNoteIndex_throws:
  "lru_has (fileCache (visited 1)) (TFile 0)
   \<and> map_option citations (map_of (fileCache (visited 1)) (TFile 0)) = Some []
   \<and> fst (getNoteForNoteIndex example_env (TFile 0) ''1'' (visited 1))
       = Inl (TypeError ''cite is undefined'')"
proof -
  have "fileCache (visited 1) = [(TFile 0, null_result {''smith99''} This)]"
    using visited_cache[of 1] by simp
  then show ?thesis
    by (simp add: getNoteForNoteIndex_def lru_has_def lru_get_def null_result_def)
qed

subsection \<open>Reusing the cached scope\<close>



lemma renderWithSource_no_cache:
  "renderWithSource env file processed citeKeys scoped None eq src st
     = renderWithSource env file processed citeKeys scoped None False src st"
  by (auto simp: renderWithSource_def unchanged_def
      split: option.splits prod.splits sum.splits)

lemma styled_settings:
  "getScopedSettings (metadataCache styled_env f) = Some my_settings"
  by (simp add: styled_env_def example_env_def getScopedSettings_def trimmed_def trim_def
      is_space_def or_else_def truthy_def my_settings_def)

lemma styled_pass:
  "getReferenceList styled_env (TFile 7) ''smith99'' ready_manager
     = (Inr (Some (Element 2 ''<div><p/></div>'')), styled_manager)"
  by (auto simp: model_defs styled_env_def ready_manager_def styled_manager_def
      styled_entry_def styled_source_def my_settings_def smith99_cited_def smith99_group_def
      div_metadata_def Let_def)




lemma smith99_processed:
  "map (getCitations example_env) (getCitationSegments example_env ''smith99'') = [smith99_group]"
  "map (getCitations styled_env) (getCitationSegments styled_env ''smith99'') = [smith99_group]"
  by (simp_all add: styled_env_def example_env_def smith99_group_def key_segment_def)


lemma one_group: "[smith99_group] \<noteq> []"
  by simp




subsection \<open>A second pass over an unchanged document\<close>

lemma lru_get_same_key: "map_of (snd (lru_get c k)) k = map_of c k"
  by (simp add: lru_get_def split: option.splits)

lemma readCached_hit:
  "map_of (fileCache st) file = Some d \<Longrightarrow>
     readCached file st = (Some d, st\<lparr>fileCache := snd (lru_get (fileCache st) file)\<rparr>)"
  by (simp add: readCached_def lru_has_def lru_get_def)

text \<open>What a pass returns is the bibliography of the entry it leaves in the cache.\<close>

lemma renderWithSource_returns_cached:
  assumes run: "renderWithSource env file processed citeKeys scoped cachedDoc eq src st = (Inr b, st')"
    and cached: "cachedDoc = map_of (fileCache st) file"
  shows "\<exists>d. map_of (fileCache st') file = Some d \<and> bib d = b"
  using run
proof (cases rule: renderWithSource_outcome)
  case no_engine
  from setNull_fields[OF no_engine(2)] show ?thesis by (auto simp: storeResult_fields(3))
next
  case (cite_throws r filtered R U e)
  then show ?thesis by simp
next
  case (returned_cached r filtered R U cits d)
  from returned_cached(4) cached callCite_fields(2)[OF returned_cached(3)] returned_cached(5)
  show ?thesis by (auto simp: unchanged_def split: option.splits if_splits)
next
  case (bib_throws r filtered R U cits st1 e)
  then show ?thesis by simp
next
  case (bib_absent r filtered R U cits st1 out st2)
  from setNull_fields[OF bib_absent(7)] show ?thesis by (auto simp: storeResult_fields(3))
next
  case (bib_stored r filtered R U cits st1 metadata entries st2)
  from bib_stored(6) obtain d st3 where "st' = storeResult file d st3"
    "(Inr b :: error + HTMLElement option) = Inr (bib d)"
    by (rule storeBibliography_fields) blast
  then show ?thesis by (auto simp: storeResult_fields(3))
qed

lemma getReferenceList_returns_cached:
  assumes run: "getReferenceList env file content st = (Inr b, st')"
    and groups: "map (getCitations env) (getCitationSegments env content) \<noteq> []"
  shows "\<exists>d. map_of (fileCache st') file = Some d \<and> bib d = b"
  using run
proof (cases rule: getReferenceList_run)
  case no_groups
  with groups show ?thesis by simp
next
  case (load_throws cachedDoc st1 e)
  then show ?thesis by simp
next
  case (rendered cachedDoc st1 src st2)
  from selectSource_loads[OF rendered(3)] readCached_fields(1,2)[OF rendered(2)]
  have "cachedDoc = map_of (fileCache st2) file"
    by (simp add: loads_only_def lru_get_same_key)
  from renderWithSource_returns_cached[OF rendered(4) this] show ?thesis .
qed

lemma styled_again:
  "getReferenceList styled_env (TFile 7) ''smith99'' styled_manager
     = (Inr (Some (Element 2 ''<div><p/></div>'')),
        styled_manager\<lparr>trace := trace styled_manager
                         @ [Cite 1 [smith99_group] (Inr [smith99_cited])]\<rparr>)"
  by (auto simp: model_defs styled_env_def ready_manager_def styled_manager_def
      styled_entry_def styled_source_def my_settings_def smith99_cited_def smith99_group_def
      div_metadata_def Let_def)


text \<open>
  C3, as stated, fails: the second pass calls the engine again. After a first pass over a
  document with a style of its own, a second pass with the same text and settings returns
  the same bibliography object, and its one event is a call of \<open>cite\<close> on the engine.
\<close>

theorem second_pass_returns_cached_counterexample:
  "getReferenceList styled_env (TFile 7) ''smith99'' ready_manager
     = (Inr (Some (Element 2 ''<div><p/></div>'')), styled_manager)
   \<and> fst (getReferenceList styled_env (TFile 7) ''smith99'' styled_manager)
     = Inr (Some (Element 2 ''<div><p/></div>''))
   \<and> pass_events styled_manager
        (snd (getReferenceList styled_env (TFile 7) ''smith99'' styled_manager))
     = [Cite 1 [smith99_group] (Inr [smith99_cited])]"
  by (simp add: styled_pass styled_again pass_events_def)


text \<open>
  C3, amended. Let a first pass have returned, leaving an entry for the document whose
  settings agree with the document's settings and whose scope has an engine. If, for the
  unchanged text, \<open>cite\<close> renders the citations that the entry holds, the second pass
  returns the bibliography object of the first. It calls \<open>cite\<close> once, and it neither
  calls \<open>makeBibliography\<close> nor loads a scope, parses, stores or dispatches: apart from
  the order of the cache, the engine object and that one event, the manager is as before.
\<close>

theorem second_pass_returns_cached:
  assumes first: "getReferenceList env file content st = (Inr b, st1)"
    and parsed: "map (getCitations env) (getCitationSegments env content) = processed"
    and groups: "processed \<noteq> []"
    and entry: "map_of (fileCache st1) file = Some d"
    and same_settings: "areSettingsEqual (getScopedSettings (metadataCache env file)) (Some d)"
    and eng: "source_engine st1 (source d) = Some r"
    and same_citations:
      "fst (cite env (heap st1 r) (filter (resolves (source_bibCache st1 (source d))) processed))
         = Inr (citations d)"
  shows "bib d = b
         \<and> getReferenceList env file content st1
             = (Inr b,
                st1\<lparr>fileCache := snd (lru_get (fileCache st1) file),
                    heap := (heap st1)
                      (r := snd (cite env (heap st1 r)
                                   (filter (resolves (source_bibCache st1 (source d))) processed))),
                    trace := trace st1
                      @ [Cite r (filter (resolves (source_bibCache st1 (source d))) processed)
                           (Inr (citations d))]\<rparr>)"
proof -
  let ?scoped = "getScopedSettings (metadataCache env file)"
  let ?st = "st1\<lparr>fileCache := snd (lru_get (fileCache st1) file)\<rparr>"
  let ?bc = "source_bibCache st1 (source d)"
  let ?filtered = "filter (resolves ?bc) processed"
  from getReferenceList_returns_cached[OF first] parsed groups entry
  have b: "bib d = b" by auto
  have rc: "readCached file st1 = (Some d, ?st)" using entry by (rule readCached_hit)
  have sel: "selectSource env ?scoped (Some d) ?st = (Inr (source d), ?st)"
    using same_settings by (simp add: selectSource_def)
  have se: "source_engine ?st (source d) = Some r" "source_bibCache ?st (source d) = ?bc"
    using eng by (simp_all add: source_engine_def source_bibCache_def split: Source.splits)
  obtain R U where
    p: "partitionKeys ?bc processed (collectKeys processed) = (?filtered, R, U)"
    using partitionKeys_filtered by (metis prod_cases3)
  have c: "callCite env r ?filtered ?st
             = (Inr (citations d),
                record_event (Cite r ?filtered (Inr (citations d)))
                  (?st\<lparr>heap := (heap ?st)(r := snd (cite env (heap st1 r) ?filtered))\<rparr>))"
    using same_citations by (auto simp: callCite_def split: prod.splits)
  have u: "unchanged (Some d) (citations d) True = Some d" by (simp add: unchanged_def)
  from getReferenceList_phases[OF parsed groups rc sel] same_settings se p c u b
  have "getReferenceList env file content st1
          = (Inr b, record_event (Cite r ?filtered (Inr (citations d)))
                  (?st\<lparr>heap := (heap ?st)(r := snd (cite env (heap st1 r) ?filtered))\<rparr>))"
    by (simp add: renderWithSource_def)
  with b show ?thesis by (simp add: record_event_def)
qed

lemma styled_entry_cached: "map_of (fileCache styled_manager) (TFile 7) = Some styled_entry"
  by (simp add: styled_manager_def)

lemma styled_entry_settings:
  "areSettingsEqual (getScopedSettings (metadataCache styled_env (TFile 7))) (Some styled_entry)"
  by (simp add: styled_settings areSettingsEqual_def styled_entry_def)

lemma styled_entry_engine: "source_engine styled_manager (source styled_entry) = Some 1"
  by (simp add: source_engine_def styled_entry_def styled_source_def)

lemma styled_entry_citations:
  "fst (cite styled_env (heap styled_manager 1)
          (filter (resolves (source_bibCache styled_manager (source styled_entry)))
             [smith99_group]))
     = Inr (citations styled_entry)"
  by (simp add: styled_env_def example_env_def styled_manager_def styled_entry_def
      styled_source_def source_bibCache_def resolves_def ready_manager_def smith99_group_def
      smith99_cited_def)

theorem second_pass_returns_cached_witness:
  "getReferenceList styled_env (TFile 7) ''smith99'' ready_manager
     = (Inr (Some (Element 2 ''<div><p/></div>'')), styled_manager)
   \<and> bib styled_entry = Some (Element 2 ''<div><p/></div>'')
   \<and> fst (getReferenceList styled_env (TFile 7) ''smith99'' styled_manager)
     = Inr (Some (Element 2 ''<div><p/></div>''))
   \<and> next_obj (snd (getReferenceList styled_env (TFile 7) ''smith99'' styled_manager))
     = next_obj styled_manager"
  using second_pass_returns_cached [OF styled_pass smith99_processed(2) one_group
      styled_entry_cached styled_entry_settings styled_entry_engine styled_entry_citations]
  by (simp add: styled_pass)

subsection \<open>A scope that cannot be built\<close>

lemma loadScopedEngine_caught:
  assumes "tryStyle env s (globalStyle st) st = (Inl e, stf)
           \<or> tryStyle env s (globalStyle st) st = (Inr (langs, sty), sta)
             \<and> (tryLang env s langs (globalLang st) sta = (Inl e, stf)
                \<or> tryLang env s langs (globalLang st) sta = (Inr lng, stb)
                  \<and> tryBibliography env s stb = (Inl e, stf))"
  shows "loadScopedEngine env (Some s) st = (Inr This, record_event (ConsoleError e) stf)"
  using assms by (auto simp: loadScopedEngine_def)

lemma failing_settings: "getScopedSettings (metadataCache failing_env f) = Some my_settings"
  using styled_settings[of f] by (simp add: failing_env_def styled_env_def)

lemma failing_processed:
  "map (getCitations failing_env) (getCitationSegments failing_env ''smith99'') = [smith99_group]"
  "map (getCitations no_pandoc_env) (getCitationSegments no_pandoc_env ''smith99'')
     = [smith99_group]"
  using smith99_processed
  by (simp_all add: failing_env_def no_pandoc_env_def styled_env_def)

lemma failing_style:
  "tryStyle failing_env my_settings (globalStyle st) st
     = (Inl (Error ''ENOENT''), record_event (FetchStyle (Some ''my.csl'') (Some ''my.csl'')) st)"
  if "styleCache st ''my.csl'' = None" for st :: "CitationGroup list BibManager"
  using that
  by (simp add: tryStyle_def my_settings_def failing_env_def truthy_def cache_has_def
      style_key_def getCSLStyle_def)

lemma failing_pass:
  "getReferenceList failing_env (TFile 8) ''smith99'' ready_manager
     = (Inr (Some (Element 1 ''<div><p/></div>'')),
        ready_manager\<lparr>fileCache := [(TFile 8, fallback_entry)],
                       heap := (heap ready_manager)(0 := [smith99_group]),
                       next_obj := 2,
                       trace := [FetchStyle (Some ''my.csl'') (Some ''my.csl''),
                                 ConsoleError (Error ''ENOENT''),
                                 Cite 0 [smith99_group] (Inr [smith99_cited]),
                                 MakeBibliography 0 (Inr (BibPair div_metadata [''<p/>''])),
                                 Dispatch (TFile 8) fallback_entry]\<rparr>)"
  by (auto simp: model_defs failing_env_def styled_env_def ready_manager_def
      fallback_entry_def my_settings_def smith99_cited_def smith99_group_def
      div_metadata_def Let_def)


text \<open>
  C4, as stated, fails: when a step of \<open>loadScopedEngine\<close> throws, the pass goes on
  with the manager's own bibliography and engine. Here the style of the document cannot
  be read, the manager has an engine and knows \<open>smith99\<close>, and the stored result has the
  key resolved, a rendered citation and a bibliography.
\<close>

theorem scope_failure_falls_back_counterexample:
  "tryStyle failing_env my_settings (globalStyle ready_manager) ready_manager
     = (Inl (Error ''ENOENT''),
        record_event (FetchStyle (Some ''my.csl'') (Some ''my.csl'')) ready_manager)
   \<and> map_of (fileCache (snd (getReferenceList failing_env (TFile 8) ''smith99'' ready_manager)))
        (TFile 8) = Some fallback_entry
   \<and> resolvedKeys fallback_entry = {''smith99''}
   \<and> citations fallback_entry = [smith99_cited]
   \<and> bib fallback_entry = Some (Element 1 ''<div><p/></div>'')"
  using failing_style[of ready_manager]
  by (simp add: failing_pass fallback_entry_def) (simp add: ready_manager_def new_manager_def)


text \<open>
  C4, amended. When loading the style, loading the locales or converting the bibliography
  throws in \<open>loadScopedEngine\<close>, the error is written to the console,
  \<open>loadScopedEngine\<close> returns the manager itself and the pass goes on with the manager's
  own bibliography lookup and engine. If the manager has no engine, the pass returns
  \<open>null\<close> and stores the result of \<open>setNull\<close>: no citations, no bibliography, empty
  \<open>resolvedKeys\<close> and \<open>unresolvedKeys\<close>.
\<close>

theorem scope_failure_falls_back:
  assumes parsed: "map (getCitations env) (getCitationSegments env content) = processed"
    and groups: "processed \<noteq> []"
    and cached: "readCached file st = (cachedDoc, st1)"
    and scoped: "getScopedSettings (metadataCache env file) = Some s"
    and differ: "cachedDoc = None \<or> \<not> areSettingsEqual (Some s) cachedDoc"
    and fails: "tryStyle env s (globalStyle st1) st1 = (Inl e, stf)
           \<or> tryStyle env s (globalStyle st1) st1 = (Inr (langs, sty), sta)
             \<and> (tryLang env s langs (globalLang st1) sta = (Inl e, stf)
                \<or> tryLang env s langs (globalLang st1) sta = (Inr lng, stb)
                  \<and> tryBibliography env s stb = (Inl e, stf))"
  shows "loadScopedEngine env (Some s) st1 = (Inr This, record_event (ConsoleError e) stf)
         \<and> getReferenceList env file content st
             = renderWithSource env file processed (collectKeys processed) (Some s) cachedDoc
                 False This (record_event (ConsoleError e) stf)
         \<and> (engine st = None
              \<longrightarrow> getReferenceList env file content st
                    = (Inr None,
                       storeResult file (null_result (collectKeys processed) This)
                         (record_event (ConsoleError e) stf)))"
proof -
  let ?st = "record_event (ConsoleError e) stf"
  have load: "loadScopedEngine env (Some s) st1 = (Inr This, ?st)"
    using fails by (rule loadScopedEngine_caught)
  with differ have sel: "selectSource env (Some s) cachedDoc st1 = (Inr This, ?st)"
    by (auto simp: selectSource_def split: option.splits)
  from getReferenceList_phases[OF parsed groups cached sel[folded scoped]] scoped differ
  have run: "getReferenceList env file content st
               = renderWithSource env file processed (collectKeys processed) (Some s) cachedDoc
                   False This ?st"
    by (auto simp: renderWithSource_no_cache[of _ _ _ _ _ "areSettingsEqual (Some s) None"])
  from loadScopedEngine_loads[OF load] readCached_fields(4)[OF cached]
  have "engine ?st = engine st" by (simp add: loads_only_def)
  then have "renderWithSource env file processed (collectKeys processed) (Some s) cachedDoc
                   False This ?st
              = (Inr None, storeResult file (null_result (collectKeys processed) This) ?st)"
    if "engine st = None"
    using that by (simp add: renderWithSource_def source_engine_def setNull_def null_result_def)
  with load run show ?thesis by simp
qed

lemma new_uncached: "readCached (TFile 8) new_manager = (None, new_manager)"
  by (simp add: readCached_def lru_has_def new_manager_def)

lemma no_pandoc_settings: "getScopedSettings (metadataCache no_pandoc_env f) = Some bib_settings"
  by (simp add: no_pandoc_env_def example_env_def getScopedSettings_def trimmed_def trim_def
      is_space_def or_else_def truthy_def bib_settings_def)

lemma no_pandoc_steps:
  "tryStyle no_pandoc_env bib_settings (globalStyle st) st = (Inr ([None], globalStyle st), st)"
  "tryLang no_pandoc_env bib_settings [None] (globalLang st) st = (Inr (globalLang st), st)"
  "tryBibliography no_pandoc_env bib_settings st
     = (Inl (Error ''pandoc failed''),
        record_event (BibToCSL ''refs.bib'' (pathToPandoc (pluginSettings st))) st)"
  for st :: "CitationGroup list BibManager"
  by (simp_all add: tryStyle_def tryLang_def tryBibliography_def bib_settings_def
      no_pandoc_env_def example_env_def)

theorem scope_failure_falls_back_witness:
  "engine new_manager = None
   \<and> tryStyle failing_env my_settings (globalStyle new_manager) new_manager
     = (Inl (Error ''ENOENT''),
        record_event (FetchStyle (Some ''my.csl'') (Some ''my.csl'')) new_manager)
   \<and> getReferenceList failing_env (TFile 8) ''smith99'' new_manager
     = (Inr None,
        storeResult (TFile 8) (null_result (collectKeys [smith99_group]) This)
          (record_event (ConsoleError (Error ''ENOENT''))
             (record_event (FetchStyle (Some ''my.csl'') (Some ''my.csl'')) new_manager)))
   \<and> tryBibliography no_pandoc_env bib_settings new_manager
     = (Inl (Error ''pandoc failed''), record_event (BibToCSL ''refs.bib'' ''pandoc'') new_manager)
   \<and> getReferenceList no_pandoc_env (TFile 8) ''smith99'' new_manager
     = (Inr None,
        storeResult (TFile 8) (null_result (collectKeys [smith99_group]) This)
          (record_event (ConsoleError (Error ''pandoc failed''))
             (record_event (BibToCSL ''refs.bib'' ''pandoc'') new_manager)))"
proof -
  have s: "styleCache new_manager ''my.csl'' = None" "engine new_manager = None"
    "pathToPandoc (pluginSettings new_manager) = ''pandoc''"
    by (simp_all add: new_manager_def)
  have a: "tryStyle failing_env my_settings (globalStyle new_manager) new_manager
      = (Inl (Error ''ENOENT''),
         record_event (FetchStyle (Some ''my.csl'') (Some ''my.csl'')) new_manager)
    \<or> tryStyle failing_env my_settings (globalStyle new_manager) new_manager
        = (Inr ([], []), new_manager)
      \<and> (tryLang failing_env my_settings [] (globalLang new_manager) new_manager
           = (Inl (Error ''ENOENT''),
              record_event (FetchStyle (Some ''my.csl'') (Some ''my.csl'')) new_manager)
         \<or> tryLang failing_env my_settings [] (globalLang new_manager) new_manager
             = (Inr [], new_manager)
           \<and> tryBibliography failing_env my_settings new_manager
             = (Inl (Error ''ENOENT''),
                record_event (FetchStyle (Some ''my.csl'') (Some ''my.csl'')) new_manager))"
    using failing_style[OF s(1)] by simp
  have b: "tryStyle no_pandoc_env bib_settings (globalStyle new_manager) new_manager
      = (Inl (Error ''pandoc failed''),
         record_event (BibToCSL ''refs.bib'' ''pandoc'') new_manager)
    \<or> tryStyle no_pandoc_env bib_settings (globalStyle new_manager) new_manager
        = (Inr ([None], globalStyle new_manager), new_manager)
      \<and> (tryLang no_pandoc_env bib_settings [None] (globalLang new_manager) new_manager
           = (Inl (Error ''pandoc failed''),
              record_event (BibToCSL ''refs.bib'' ''pandoc'') new_manager)
         \<or> tryLang no_pandoc_env bib_settings [None] (globalLang new_manager) new_manager
             = (Inr (globalLang new_manager), new_manager)
           \<and> tryBibliography no_pandoc_env bib_settings new_manager
             = (Inl (Error ''pandoc failed''),
                record_event (BibToCSL ''refs.bib'' ''pandoc'') new_manager))"
    using no_pandoc_steps[of new_manager] s(3) by simp
  have "getReferenceList failing_env (TFile 8) ''smith99'' new_manager
     = (Inr None,
        storeResult (TFile 8) (null_result (collectKeys [smith99_group]) This)
          (record_event (ConsoleError (Error ''ENOENT''))
             (record_event (FetchStyle (Some ''my.csl'') (Some ''my.csl'')) new_manager)))"
    using scope_failure_falls_back [OF failing_processed(1) one_group new_uncached
      failing_settings _ a] s(2) by blast
  moreover have "getReferenceList no_pandoc_env (TFile 8) ''smith99'' new_manager
     = (Inr None,
        storeResult (TFile 8) (null_result (collectKeys [smith99_group]) This)
          (record_event (ConsoleError (Error ''pandoc failed''))
             (record_event (BibToCSL ''refs.bib'' ''pandoc'') new_manager)))"
    using scope_failure_falls_back [OF failing_processed(2) one_group new_uncached
      no_pandoc_settings _ b] s(2) by blast
  ultimately show ?thesis
    using failing_style[OF s(1)] no_pandoc_steps(3)[of new_manager] s by simp
qed

end
